theory Spec2Isabelle
  imports Main "HOL-Library.Multiset"
begin

section \<open>Shared Python values\<close>

text \<open>
  Exceptions are values. Each constructor is the exception class the source raises or
  catches by name; the string is the exception's message (what \<^verbatim>\<open>str(e)\<close> and
  \<^verbatim>\<open>{e}\<close> in an f-string print). \<open>OtherError\<close> stands for every exception class
  the two modules do not name.
\<close>

datatype py_error =
    ValueError string
  | KeyError string
  | IndexError string
  | FileNotFoundError string
  | JSONDecodeError string
  | UnboundLocalError string
  | OtherError string

fun str_error :: "py_error \<Rightarrow> string" where
  "str_error (ValueError m) = m"
| "str_error (KeyError m) = m"
| "str_error (IndexError m) = m"
| "str_error (FileNotFoundError m) = m"
| "str_error (JSONDecodeError m) = m"
| "str_error (UnboundLocalError m) = m"
| "str_error (OtherError m) = m"

text \<open>\<^verbatim>\<open>sep.join(parts)\<close>.\<close>

fun join :: "string \<Rightarrow> string list \<Rightarrow> string" where
  "join sep [] = []"
| "join sep [x] = x"
| "join sep (x # y # ys) = x @ sep @ join sep (y # ys)"

text \<open>\<^verbatim>\<open>str(n)\<close> for an integer: decimal digits, a minus sign when negative.\<close>

definition digit_char :: "nat \<Rightarrow> char" where
  "digit_char d = ''0123456789'' ! (d mod 10)"

fun str_nat :: "nat \<Rightarrow> string" where
  "str_nat n = (if n < 10 then [digit_char n] else str_nat (n div 10) @ [digit_char n])"

declare str_nat.simps [simp del]

definition str_int :: "int \<Rightarrow> string" where
  "str_int i = (if i < 0 then CHR ''-'' # str_nat (nat (- i)) else str_nat (nat i))"

section \<open>dq\_sus/get\_info/get\_info.py: get\_years\<close>

text \<open>
  \<^verbatim>\<open>valid_diseases = {"DENG": "dengue", "ZIKA": "zika", "CHIK": "chikungunya"}\<close>:
  a dict literal, kept as the list of its items in insertion order.
\<close>

definition valid_diseases :: "(string \<times> string) list" where
  "valid_diseases =
     [(''DENG'', ''dengue''), (''ZIKA'', ''zika''), (''CHIK'', ''chikungunya'')]"

text \<open>
  \<^verbatim>\<open>any(disease_code not in valid_diseases for disease_code in disease)\<close>:
  \<open>disease\<close> is a string, so the generator walks its characters, and each
  \<open>disease_code\<close> is the one-character string \<open>[c]\<close>, tested against the keys of the dict.
\<close>

definition invalid_disease :: "string \<Rightarrow> bool" where
  "invalid_disease disease =
     list_ex (\<lambda>c. map_of valid_diseases [c] = None) disease"

text \<open>
  \<^verbatim>\<open>re.search(r"BR(\d{2})", file)\<close>: the leftmost position where \<open>B\<close>, \<open>R\<close> and
  two digits follow one another; the result is group 1, the two digits. File names are
  strings of \<^typ>\<open>char\<close>, and \<^verbatim>\<open>\d\<close> is taken on them as the ten ASCII digits.
\<close>

definition is_digit :: "char \<Rightarrow> bool" where
  "is_digit c = (c \<in> set ''0123456789'')"

fun search_BR :: "string \<Rightarrow> string option" where
  "search_BR (b # r # d1 # d2 # rest) =
     (if b = CHR ''B'' \<and> r = CHR ''R'' \<and> is_digit d1 \<and> is_digit d2 then Some [d1, d2]
      else search_BR (r # d1 # d2 # rest))"
| "search_BR _ = None"

text \<open>\<^verbatim>\<open>int(s)\<close> on a string of ASCII digits.\<close>

definition digit_val :: "char \<Rightarrow> int" where
  "digit_val c = of_char c - 48"

definition int_of_digits :: "string \<Rightarrow> int" where
  "int_of_digits ds = foldl (\<lambda>a c. 10 * a + digit_val c) 0 ds"

text \<open>
  One step of the generator of \<^verbatim>\<open>years\<close>: a file with a match yields
  \<^verbatim>\<open>int(match.group(1)) + 2000\<close>, a file without one is filtered out.
\<close>

definition year_of_file :: "string \<Rightarrow> int option" where
  "year_of_file file =
     (case search_BR file of None \<Rightarrow> None | Some g \<Rightarrow> Some (int_of_digits g + 2000))"

text \<open>\<^verbatim>\<open>years = sorted(... for file in files if (match := ...))\<close>.\<close>

definition years_of :: "string list \<Rightarrow> int list" where
  "years_of files = sort (List.map_filter year_of_file files)"

text \<open>
  \<^verbatim>\<open>valid_diseases[disease_code] for disease_code in disease\<close>: a lookup per
  character, raising \<open>KeyError\<close> at the first character that is not a key.
\<close>

fun disease_names :: "string \<Rightarrow> py_error + string list" where
  "disease_names [] = Inr []"
| "disease_names (c # cs) =
     (case map_of valid_diseases [c] of
        None \<Rightarrow> Inl (KeyError [c])
      | Some name \<Rightarrow>
          (case disease_names cs of Inl e \<Rightarrow> Inl e | Inr names \<Rightarrow> Inr (name # names)))"

text \<open>
  The object returned by \<^verbatim>\<open>SINAN().load()\<close> belongs to the pysus library. Of it the
  function uses \<^verbatim>\<open>get_files(dis_code=[disease])\<close> only, which is a parameter here:
  given the list of codes it raises or returns file names.
\<close>

record sinan =
  get_files :: "string list \<Rightarrow> py_error + string list"

definition error_message :: string where
  "error_message = ''Error: Only DENG, ZIKA, and CHIK are allowed.''"

text \<open>
  \<open>get_years\<close>. The first argument is the outcome of \<^verbatim>\<open>SINAN().load()\<close>, the
  first statement of the body: when it raises, so does \<open>get_years\<close>.
\<close>

definition get_years :: "py_error + sinan \<Rightarrow> string \<Rightarrow> py_error + string" where
  "get_years load disease =
     (case load of
        Inl e \<Rightarrow> Inl e
      | Inr sinan \<Rightarrow>
          if invalid_disease disease then Inr error_message
          else
            (case get_files sinan [disease] of
               Inl e \<Rightarrow> Inl e
             | Inr files \<Rightarrow>
                 (let years = years_of files in
                  case disease_names disease of
                    Inl e \<Rightarrow> Inl e
                  | Inr names \<Rightarrow>
                      (let available_diseases = join '', '' names;
                           available_years = join '', '' (map str_int years)
                       in Inr (''The available data for '' @ available_diseases
                               @ '' is from the years: '' @ available_years @ ''.'')))))"

section \<open>The logging module\<close>

text \<open>
  Both files log through the module-level functions of Python's \<^verbatim>\<open>logging\<close>. The
  state they share is the manager's \<^verbatim>\<open>disable\<close> level, set by
  \<^verbatim>\<open>logging.disable(level)\<close>: a record of level \<open>l\<close> is dropped when
  \<open>disable \<ge> l\<close>. \<open>records\<close> is the trail of the records that got past that test, in
  order. Handlers and logger levels are configuration and are left out.
\<close>

record log_state =
  disable :: nat
  records :: "(nat \<times> string) list"

definition NOTSET :: nat where "NOTSET = 0"
definition INFO :: nat where "INFO = 20"
definition WARNING :: nat where "WARNING = 30"
definition ERROR :: nat where "ERROR = 40"
definition CRITICAL :: nat where "CRITICAL = 50"

definition logging_disable :: "nat \<Rightarrow> 'a log_state_scheme \<Rightarrow> 'a log_state_scheme" where
  "logging_disable level s = s\<lparr>disable := level\<rparr>"

definition log :: "nat \<Rightarrow> string \<Rightarrow> 'a log_state_scheme \<Rightarrow> 'a log_state_scheme" where
  "log level msg s =
     (if disable s \<ge> level then s else s\<lparr>records := records s @ [(level, msg)]\<rparr>)"

definition logging_info :: "string \<Rightarrow> 'a log_state_scheme \<Rightarrow> 'a log_state_scheme" where
  "logging_info = log INFO"

definition logging_warning :: "string \<Rightarrow> 'a log_state_scheme \<Rightarrow> 'a log_state_scheme" where
  "logging_warning = log WARNING"

definition logging_error :: "string \<Rightarrow> 'a log_state_scheme \<Rightarrow> 'a log_state_scheme" where
  "logging_error = log ERROR"

section \<open>dq\_sus/get\_info/get\_info.py: get\_data\_from\_table\<close>

text \<open>
  A pandas DataFrame: the column labels, and the rows, each with its index label and one
  cell per column. A cell is \<open>None\<close> when pandas counts it as missing (\<^verbatim>\<open>isna\<close>).
  \<^verbatim>\<open>pd.DataFrame()\<close> has no column and no row.
\<close>

record 'a dataframe =
  columns :: "string list"
  rows :: "(nat \<times> 'a option list) list"

definition empty_frame :: "'a dataframe" where
  "empty_frame = \<lparr>columns = [], rows = []\<rparr>"

text \<open>\<^verbatim>\<open>data.empty\<close>: some axis has length 0.\<close>

definition is_empty :: "'a dataframe \<Rightarrow> bool" where
  "is_empty df = (columns df = [] \<or> rows df = [])"

text \<open>
  \<^verbatim>\<open>data.dropna(axis=1, how="all")\<close> keeps the column at position \<open>j\<close> when some row
  has a value there, and drops it when every row is missing there.
\<close>

definition has_value :: "'a dataframe \<Rightarrow> nat \<Rightarrow> bool" where
  "has_value df j =
     list_ex (\<lambda>r. j < length (snd r) \<and> snd r ! j \<noteq> None) (rows df)"

definition keep_positions :: "(nat \<Rightarrow> bool) \<Rightarrow> 'b list \<Rightarrow> 'b list" where
  "keep_positions keep xs = map snd (filter (\<lambda>p. keep (fst p)) (enumerate 0 xs))"

definition dropna_columns_all :: "'a dataframe \<Rightarrow> 'a dataframe" where
  "dropna_columns_all df =
     \<lparr>columns = keep_positions (has_value df) (columns df),
      rows = map (\<lambda>r. (fst r, keep_positions (has_value df) (snd r))) (rows df)\<rparr>"

text \<open>
  \<^verbatim>\<open>data.dropna()\<close>: the defaults are \<^verbatim>\<open>axis=0, how="any"\<close>, so a row is dropped
  as soon as one of its cells is missing.
\<close>

definition complete_row :: "nat \<times> 'a option list \<Rightarrow> bool" where
  "complete_row r = list_all (\<lambda>c. c \<noteq> None) (snd r)"

definition dropna :: "'a dataframe \<Rightarrow> 'a dataframe" where
  "dropna df = df\<lparr>rows := filter complete_row (rows df)\<rparr>"

text \<open>
  The five calls into \<^verbatim>\<open>dq_sus.extract\<close>, \<^verbatim>\<open>dq_sus.transform\<close> and
  \<^verbatim>\<open>dq_sus.load\<close> belong to other modules. One run of them is given by the records
  they hand to \<^verbatim>\<open>logging\<close>, in order, and by their outcome: the exception one of
  them raises, or the frame that \<^verbatim>\<open>load_data\<close> returns.
\<close>

record 'a pipeline_run =
  attempts :: "(nat \<times> string) list"
  outcome :: "py_error + 'a dataframe"

definition run_pipeline ::
  "'a pipeline_run \<Rightarrow> 'b log_state_scheme \<Rightarrow> 'b log_state_scheme \<times> (py_error + 'a dataframe)"
where
  "run_pipeline run s = (fold (\<lambda>r. log (fst r) (snd r)) (attempts run) s, outcome run)"

text \<open>The body of the \<^verbatim>\<open>try\<close> block.\<close>

definition extract_and_clean ::
  "'a pipeline_run \<Rightarrow> 'b log_state_scheme \<Rightarrow> 'b log_state_scheme \<times> (py_error + 'a dataframe)"
where
  "extract_and_clean run s =
     (case run_pipeline run s of
        (s1, Inl e) \<Rightarrow> (s1, Inl e)
      | (s1, Inr loaded) \<Rightarrow>
          (let data = dropna_columns_all loaded in
           if is_empty data \<or> length (columns data) = 0 then
             (logging_warning ''No data available: All columns are empty or null.'' s1,
              Inr empty_frame)
           else
             (let data = dropna data in
              if is_empty data then
                (logging_warning
                   ''No data available: All rows are empty or null after filtering.'' s1,
                 Inr empty_frame)
              else (s1, Inr data))))"

text \<open>
  \<open>get_data_from_table\<close>. The environment \<open>pipeline\<close> maps the arguments handed to the
  other modules to the run they produce. The \<^verbatim>\<open>finally\<close> clause runs on every way
  out of the \<^verbatim>\<open>try\<close> block.
\<close>

definition get_data_from_table ::
  "(string \<Rightarrow> int list \<Rightarrow> string \<Rightarrow> int option \<Rightarrow> 'a pipeline_run) \<Rightarrow>
   string \<Rightarrow> int list \<Rightarrow> string \<Rightarrow> int option \<Rightarrow> bool \<Rightarrow>
   'b log_state_scheme \<Rightarrow> 'b log_state_scheme \<times> (py_error + 'a dataframe)"
where
  "get_data_from_table pipeline table_name years disease limit verbose s =
     (let s0 = (if \<not> verbose then logging_disable CRITICAL s else s);
          (s1, result) = extract_and_clean (pipeline table_name years disease limit) s0;
          s2 = (if \<not> verbose then logging_disable NOTSET s1 else s1)
      in (s2, result))"

section \<open>src/transform/transform\_columns.py: load\_json\<close>

text \<open>
  The state the module acts on, beyond the log: the paths it has handed to
  \<^verbatim>\<open>open\<close>, in order.
\<close>

record fs_state = log_state +
  opened :: "string list"

text \<open>
  What the module takes from outside. \<open>json_dir\<close> is the directory computed from
  \<^verbatim>\<open>__file__\<close>. \<open>json_load\<close> is \<^verbatim>\<open>open(json_path, "r")\<close> followed by
  \<^verbatim>\<open>json.load(file)\<close>: the exception either of them raises, or the parsed document.
  \<open>dict_of\<close> is \<^verbatim>\<open>dict(columns_mapping)\<close> on that document; a dict is the list of its
  items in insertion order.
\<close>

record 'j json_env =
  json_dir :: string
  json_load :: "string \<Rightarrow> py_error + 'j"
  dict_of :: "'j \<Rightarrow> py_error + (string \<times> string) list"

definition json_paths :: "('j, 'x) json_env_scheme \<Rightarrow> (string \<times> string) list" where
  "json_paths env =
     [(''english'', json_dir env @ ''/columns_translated_english.json''),
      (''portuguese'', json_dir env @ ''/columns_translated_portuguese.json'')]"

text \<open>
  The three \<^verbatim>\<open>except\<close> clauses of \<open>load_json\<close>, tried in the order of the source:
  each logs at level ERROR and re-raises the exception it caught.
\<close>

fun load_error_message :: "string \<Rightarrow> string \<Rightarrow> py_error \<Rightarrow> string" where
  "load_error_message language json_path (FileNotFoundError m) =
     ''JSON file for '' @ [CHR 0x27] @ language @ [CHR 0x27] @ '' not found in '' @ json_path"
| "load_error_message language json_path (JSONDecodeError m) =
     ''Error decoding JSON file: '' @ m"
| "load_error_message language json_path e = ''Unexpected error: '' @ str_error e"

definition load_json ::
  "('j, 'x) json_env_scheme \<Rightarrow> string \<Rightarrow> 'a fs_state_scheme \<Rightarrow>
   'a fs_state_scheme \<times> (py_error + (string \<times> string) list)"
where
  "load_json env language s =
     (case map_of (json_paths env) language of
        None \<Rightarrow>
          (s, Inl (ValueError
             (''Language not supported. Please choose '' @ [CHR 0x27] @ ''english''
              @ [CHR 0x27] @ '' or '' @ [CHR 0x27] @ ''portuguese'' @ [CHR 0x27] @ ''.'')))
      | Some json_path \<Rightarrow>
          (let s1 = s\<lparr>opened := opened s @ [json_path]\<rparr> in
           case json_load env json_path of
             Inl e \<Rightarrow> (logging_error (load_error_message language json_path e) s1, Inl e)
           | Inr columns_mapping \<Rightarrow>
               (let s2 = logging_info
                      (''Column mapping for '' @ [CHR 0x27] @ language @ [CHR 0x27]
                       @ '' loaded successfully.'') s1
                in case dict_of env columns_mapping of
                     Inl e \<Rightarrow>
                       (logging_error (load_error_message language json_path e) s2, Inl e)
                   | Inr d \<Rightarrow> (s2, Inr d))))"

section \<open>src/transform/transform\_columns.py: rename\_db\_columns\<close>

text \<open>
  DuckDB is a library. \<open>'d\<close> is the content of a database, whatever the engine keeps
  in it. \<open>disk\<close> is the committed content of the file at \<open>db_path\<close>; \<open>events\<close> is the
  trail of the calls made on the connection. Between \<^verbatim>\<open>conn.begin()\<close> and
  \<^verbatim>\<open>conn.commit()\<close> the statements act on the transaction's working content, which
  starts as \<open>disk\<close>, replaces it at a commit that succeeds, and is discarded by
  \<^verbatim>\<open>conn.rollback()\<close>.
\<close>

datatype db_event = Connect | Begin | Execute string | Commit | Rollback | Close

record 'd world = fs_state +
  disk :: 'd
  events :: "db_event list"

text \<open>
  \<open>path_exists\<close> is \<^verbatim>\<open>db_path.exists()\<close>; \<open>unidecode\<close> is
  \<^verbatim>\<open>unidecode.unidecode\<close>; \<open>connect\<close> is \<^verbatim>\<open>duckdb.connect\<close>, which raises or
  gives a connection; \<open>execute\<close> is the engine running one statement on a content: it
  raises, or gives the new content and the rows of \<^verbatim>\<open>fetchall()\<close>; \<open>commit_db\<close>
  tells whether the commit of a content raises. \<^verbatim>\<open>begin\<close>, \<^verbatim>\<open>rollback\<close> and
  \<^verbatim>\<open>close\<close> are taken not to raise.
\<close>

record ('j, 'd) db_env = "'j json_env" +
  path_exists :: "string \<Rightarrow> bool"
  unidecode :: "string \<Rightarrow> string"
  connect :: "string \<Rightarrow> py_error option"
  execute :: "'d \<Rightarrow> string \<Rightarrow> py_error + 'd \<times> string list list"
  commit_db :: "'d \<Rightarrow> py_error option"

definition event :: "db_event \<Rightarrow> ('d, 'a) world_scheme \<Rightarrow> ('d, 'a) world_scheme" where
  "event ev s = s\<lparr>events := events s @ [ev]\<rparr>"

text \<open>\<^verbatim>\<open>conn.execute(stmt)\<close> inside the transaction, on the working content \<open>w\<close>.\<close>

definition conn_execute ::
  "('j, 'd, 'x) db_env_scheme \<Rightarrow> string \<Rightarrow> ('d, 'a) world_scheme \<Rightarrow> 'd \<Rightarrow>
   ('d, 'a) world_scheme \<times> (py_error + 'd \<times> string list list)"
where
  "conn_execute env stmt s w = (event (Execute stmt) s, execute env w stmt)"

definition rename_statement :: "string \<Rightarrow> string \<Rightarrow> string \<Rightarrow> string" where
  "rename_statement table_name old new =
     ''ALTER TABLE '' @ table_name @ '' RENAME COLUMN '' @ [CHR 0x22] @ old @ [CHR 0x22]
     @ '' TO '' @ [CHR 0x22] @ new @ [CHR 0x22]"

text \<open>\<^verbatim>\<open>d[k] = v\<close> on a dict: an existing key keeps its place.\<close>

fun dict_set :: "('k \<times> 'v) list \<Rightarrow> 'k \<Rightarrow> 'v \<Rightarrow> ('k \<times> 'v) list" where
  "dict_set [] k v = [(k, v)]"
| "dict_set ((k', v') # d) k v =
     (if k' = k then (k', v) # d else (k', v') # dict_set d k v)"

text \<open>
  The dict comprehension \<^verbatim>\<open>{col[0]: unidecode.unidecode(col[0]) for col in ...}\<close> over
  the rows of \<^verbatim>\<open>DESCRIBE\<close>; \<^verbatim>\<open>col[0]\<close> raises on an empty tuple.
\<close>

fun existing_columns ::
  "('j, 'd, 'x) db_env_scheme \<Rightarrow> string list list \<Rightarrow> (string \<times> string) list \<Rightarrow>
   py_error + (string \<times> string) list"
where
  "existing_columns env [] d = Inr d"
| "existing_columns env (col # rest) d =
     (case col of
        [] \<Rightarrow> Inl (IndexError ''tuple index out of range'')
      | c0 # _ \<Rightarrow> existing_columns env rest (dict_set d c0 (unidecode env c0)))"

text \<open>The first loop: accents are removed from the names of the existing columns.\<close>

fun normalize_columns ::
  "('j, 'd, 'x) db_env_scheme \<Rightarrow> string \<Rightarrow> (string \<times> string) list \<Rightarrow>
   ('d, 'a) world_scheme \<Rightarrow> 'd \<Rightarrow> ('d, 'a) world_scheme \<times> (py_error + 'd)"
where
  "normalize_columns env table_name [] s w = (s, Inr w)"
| "normalize_columns env table_name ((col, normalized_col) # rest) s w =
     (if col \<noteq> normalized_col then
        (case conn_execute env (rename_statement table_name col normalized_col) s w of
           (s1, Inl e) \<Rightarrow> (s1, Inl e)
         | (s1, Inr (w1, _)) \<Rightarrow>
             normalize_columns env table_name rest
               (logging_info
                  (''Removed accents from column '' @ [CHR 0x27] @ col @ [CHR 0x27]
                   @ '' to '' @ [CHR 0x27] @ normalized_col @ [CHR 0x27]) s1) w1)
      else normalize_columns env table_name rest s w)"

text \<open>
  The second loop: the entries of the mapping, against
  \<^verbatim>\<open>existing_columns.values()\<close>.
\<close>

fun apply_mapping ::
  "('j, 'd, 'x) db_env_scheme \<Rightarrow> string \<Rightarrow> string list \<Rightarrow> (string \<times> string) list \<Rightarrow>
   ('d, 'a) world_scheme \<Rightarrow> 'd \<Rightarrow> string list \<Rightarrow>
   ('d, 'a) world_scheme \<times> (py_error + 'd \<times> string list)"
where
  "apply_mapping env table_name vals [] s w unmapped_columns = (s, Inr (w, unmapped_columns))"
| "apply_mapping env table_name vals ((old_name, new_name) # rest) s w unmapped_columns =
     (let normalized_old_name = unidecode env old_name in
      if normalized_old_name \<in> set vals then
        (case conn_execute env (rename_statement table_name normalized_old_name new_name) s w of
           (s1, Inl e) \<Rightarrow> (s1, Inl e)
         | (s1, Inr (w1, _)) \<Rightarrow> apply_mapping env table_name vals rest s1 w1 unmapped_columns)
      else apply_mapping env table_name vals rest s w (unmapped_columns @ [old_name]))"

text \<open>
  The statements between \<^verbatim>\<open>conn.begin()\<close> and \<^verbatim>\<open>conn.commit()\<close>, the commit
  included. The result is the exception that leaves the \<^verbatim>\<open>try\<close> block, or the list
  \<^verbatim>\<open>unmapped_columns\<close>.
\<close>

definition in_transaction ::
  "('j, 'd, 'x) db_env_scheme \<Rightarrow> string \<Rightarrow> (string \<times> string) list \<Rightarrow>
   ('d, 'a) world_scheme \<Rightarrow> ('d, 'a) world_scheme \<times> (py_error + string list)"
where
  "in_transaction env table_name column_mapping s =
     (case conn_execute env (''DESCRIBE '' @ table_name) s (disk s) of
        (s1, Inl e) \<Rightarrow> (s1, Inl e)
      | (s1, Inr (w1, described)) \<Rightarrow>
          (case existing_columns env described [] of
             Inl e \<Rightarrow> (s1, Inl e)
           | Inr existing \<Rightarrow>
               (case normalize_columns env table_name existing s1 w1 of
                  (s2, Inl e) \<Rightarrow> (s2, Inl e)
                | (s2, Inr w2) \<Rightarrow>
                    (case apply_mapping env table_name (map snd existing) column_mapping
                            s2 w2 [] of
                       (s3, Inl e) \<Rightarrow> (s3, Inl e)
                     | (s3, Inr (w3, unmapped_columns)) \<Rightarrow>
                         (case commit_db env w3 of
                            Some e \<Rightarrow> (s3, Inl e)
                          | None \<Rightarrow> (event Commit (s3\<lparr>disk := w3\<rparr>), Inr unmapped_columns))))))"

text \<open>The report after \<^verbatim>\<open>conn.close()\<close>.\<close>

definition report_unmapped :: "string list \<Rightarrow> 'a log_state_scheme \<Rightarrow> 'a log_state_scheme" where
  "report_unmapped unmapped_columns s =
     (if unmapped_columns \<noteq> [] then
        fold (\<lambda>col. logging_warning ('' - '' @ col)) unmapped_columns
          (logging_warning
             (''The following columns were not found in the JSON mapping or database ''
              @ ''and were not renamed:'') s)
      else logging_info ''All columns renamed successfully.'' s)"

text \<open>
  The \<^verbatim>\<open>try\<close> statement. When \<^verbatim>\<open>duckdb.connect\<close> raises, \<open>conn\<close> was never
  bound, and the test \<^verbatim>\<open>if conn:\<close> of the handler raises \<open>UnboundLocalError\<close> in
  place of the exception caught. A connection object is true.
\<close>

definition rename_in_try ::
  "('j, 'd, 'x) db_env_scheme \<Rightarrow> string \<Rightarrow> string \<Rightarrow> (string \<times> string) list \<Rightarrow>
   ('d, 'a) world_scheme \<Rightarrow> ('d, 'a) world_scheme \<times> (py_error + unit)"
where
  "rename_in_try env db_path table_name column_mapping s =
     (case connect env db_path of
        Some e \<Rightarrow>
          (logging_error (''Error renaming columns in DuckDB: '' @ str_error e) s,
           Inl (UnboundLocalError
             (''cannot access local variable '' @ [CHR 0x27] @ ''conn'' @ [CHR 0x27]
              @ '' where it is not associated with a value'')))
      | None \<Rightarrow>
          (case in_transaction env table_name column_mapping (event Begin (event Connect s)) of
             (s1, Inl e) \<Rightarrow>
               (event Rollback
                  (logging_error (''Error renaming columns in DuckDB: '' @ str_error e) s1),
                Inl e)
           | (s1, Inr unmapped_columns) \<Rightarrow>
               (report_unmapped unmapped_columns (event Close s1), Inr ())))"

definition rename_db_columns ::
  "('j, 'd, 'x) db_env_scheme \<Rightarrow> string \<Rightarrow> string \<Rightarrow> string \<Rightarrow>
   ('d, 'a) world_scheme \<Rightarrow> ('d, 'a) world_scheme \<times> (py_error + unit)"
where
  "rename_db_columns env db_path table_name language s =
     (if \<not> path_exists env db_path then
        (logging_error (''Database not found at '' @ db_path) s,
         Inl (FileNotFoundError (''Database not found at '' @ db_path)))
      else
        (case load_json env language s of
           (s1, Inl e) \<Rightarrow> (s1, Inl e)
         | (s1, Inr column_mapping) \<Rightarrow>
             rename_in_try env db_path table_name column_mapping s1))"

section \<open>Predicates of the specification\<close>

text \<open>
  The fragment the specification speaks of for \<open>get_years\<close>: somewhere in the file name,
  \<open>BR\<close> followed by two digits.
\<close>

definition contains_fragment :: "string \<Rightarrow> bool" where
  "contains_fragment file =
     (\<exists>pre d1 d2 post. file = pre @ ''BR'' @ [d1, d2] @ post \<and> is_digit d1 \<and> is_digit d2)"

text \<open>A row that holds at least one value.\<close>

definition has_non_null :: "nat \<times> 'a option list \<Rightarrow> bool" where
  "has_non_null r = (\<exists>c \<in> set (snd r). c \<noteq> None)"

text \<open>
  A mapping entry matches when the accent-stripped form of its key is one of the
  normalized names of the existing columns.
\<close>

definition matched :: "('j, 'd, 'x) db_env_scheme \<Rightarrow> string list \<Rightarrow> string \<times> string \<Rightarrow> bool" where
  "matched env vals entry = (unidecode env (fst entry) \<in> set vals)"

section \<open>Example inputs\<close>

text \<open>
  A loaded SINAN index that lists three files for every request; one name carries no
  year.
\<close>

definition example_sinan :: sinan where
  "example_sinan =
     \<lparr>get_files = (\<lambda>codes. Inr [''CHIKBR23.dbc'', ''README.txt'', ''CHIKBR15.dbc''])\<rparr>"

text \<open>
  A loaded table of three columns and two rows: column \<open>c\<close> is missing in both rows,
  row 0 has one value and one missing cell in the other two columns, row 1 has both.
\<close>

definition example_frame :: "int dataframe" where
  "example_frame =
     \<lparr>columns = [''a'', ''b'', ''c''],
      rows = [(0, [Some 1, None, None]), (1, [Some 2, Some 3, None])]\<rparr>"

definition example_pipeline ::
  "string \<Rightarrow> int list \<Rightarrow> string \<Rightarrow> int option \<Rightarrow> int pipeline_run" where
  "example_pipeline table_name years disease limit =
     \<lparr>attempts = [(INFO, ''Loading data'')], outcome = Inr example_frame\<rparr>"

text \<open>A run of the other modules that logs twice and then raises.\<close>

definition failing_pipeline ::
  "string \<Rightarrow> int list \<Rightarrow> string \<Rightarrow> int option \<Rightarrow> int pipeline_run" where
  "failing_pipeline table_name years disease limit =
     \<lparr>attempts = [(INFO, ''Extracting''), (ERROR, ''Download failed'')],
      outcome = Inl (OtherError ''Download failed'')\<rparr>"

text \<open>
  A small engine for one table \<open>sinan\<close>, whose content is the list of its column names.
  It answers \<^verbatim>\<open>DESCRIBE sinan\<close> and renames a column; it raises when the column to
  rename is absent or the new name is taken.
\<close>

fun strip_prefix :: "string \<Rightarrow> string \<Rightarrow> string option" where
  "strip_prefix [] s = Some s"
| "strip_prefix (p # ps) [] = None"
| "strip_prefix (p # ps) (c # cs) = (if p = c then strip_prefix ps cs else None)"

definition example_execute ::
  "string list \<Rightarrow> string \<Rightarrow> py_error + string list \<times> string list list" where
  "example_execute w stmt =
     (if stmt = ''DESCRIBE sinan'' then Inr (w, map (\<lambda>c. [c, ''VARCHAR'']) w)
      else
        (case strip_prefix (''ALTER TABLE sinan RENAME COLUMN '' @ [CHR 0x22]) stmt of
           None \<Rightarrow> Inl (OtherError ''Parser Error'')
         | Some rest \<Rightarrow>
             (let old = takeWhile (\<lambda>c. c \<noteq> CHR 0x22) rest in
              case strip_prefix ([CHR 0x22] @ '' TO '' @ [CHR 0x22]) (drop (length old) rest) of
                None \<Rightarrow> Inl (OtherError ''Parser Error'')
              | Some rest' \<Rightarrow>
                  (let new = takeWhile (\<lambda>c. c \<noteq> CHR 0x22) rest' in
                   if old \<notin> set w then Inl (OtherError ''Binder Error'')
                   else if new \<in> set w then Inl (OtherError ''Catalog Error'')
                   else Inr (map (\<lambda>c. if c = old then new else c) w, [])))))"

text \<open>A stand-in for \<^verbatim>\<open>unidecode\<close>: the byte \<open>0xE9\<close> becomes \<open>e\<close>.\<close>

definition example_unidecode :: "string \<Rightarrow> string" where
  "example_unidecode name = map (\<lambda>c. if c = CHR 0xE9 then CHR ''e'' else c) name"

text \<open>
  Two mapping files. Of the English one the entry \<open>ID_PAIS\<close> matches no column of the
  example table; the Portuguese one renames two columns to the same name, which the
  engine refuses at the second.
\<close>

definition example_json_load :: "string \<Rightarrow> py_error + (string \<times> string) list" where
  "example_json_load json_path =
     (if json_path = ''/pkg/json/columns_translated_english.json''
      then Inr [(''NU_ANO'', ''year''), (''ID_PAIS'', ''country''), (''ID_AGRAVO'', ''disease'')]
      else if json_path = ''/pkg/json/columns_translated_portuguese.json''
      then Inr [(''NU_ANO'', ''ano''), (''NU_IDADE'', ''ano'')]
      else Inl (FileNotFoundError ''No such file or directory''))"

definition example_env :: "((string \<times> string) list, string list) db_env" where
  "example_env =
     \<lparr>json_dir = ''/pkg/json'', json_load = example_json_load, dict_of = Inr,
      path_exists = (\<lambda>p. p = ''/pkg/data/db/db.db''), unidecode = example_unidecode,
      connect = (\<lambda>p. None), execute = example_execute, commit_db = (\<lambda>w. None)\<rparr>"

definition example_world :: "string list world" where
  "example_world =
     \<lparr>disable = NOTSET, records = [], opened = [],
      disk = [''NU_ANO'', ''ID_AGRAVO'', ''NU_IDADE''], events = []\<rparr>"


section \<open>Properties of get\_years\<close>

lemma map_of_single_char: "map_of valid_diseases [c] = None"
  by (simp add: valid_diseases_def)

lemma invalid_disease_iff: "invalid_disease disease \<longleftrightarrow> disease \<noteq> []"
  by (cases disease) (simp_all add: invalid_disease_def map_of_single_char)

lemma get_years_nonempty:
  "disease \<noteq> [] \<Longrightarrow> get_years (Inr sinan) disease = Inr error_message"
  by (simp add: get_years_def invalid_disease_iff)

lemma get_years_empty: "get_years (Inr sinan) [] \<noteq> Inr error_message"
  by (simp add: get_years_def invalid_disease_iff Let_def error_message_def split: sum.splits)

text \<open>
  C2: a disease string with a character that occurs in none of \<open>DENG\<close>, \<open>ZIKA\<close>,
  \<open>CHIK\<close> makes \<open>get_years\<close> return the fixed error message, as a value and not as an
  exception, and the value is not the sentence that lists years. (\<open>get_years\<close> reaches
  its check once \<^verbatim>\<open>SINAN().load()\<close> has returned.)
\<close>

theorem get_years_rejects_foreign_characters:
  assumes "load = Inr sinan"
    and "\<exists>c \<in> set disease. c \<notin> set ''DENGZIKACHIK''"
  shows "get_years load disease = Inr error_message
         \<and> (\<forall>rest. get_years load disease \<noteq> Inr (''The available data for '' @ rest))"
proof -
  from assms(2) have "disease \<noteq> []" by auto
  with assms(1) have "get_years load disease = Inr error_message"
    by (simp add: get_years_nonempty)
  then show ?thesis by (simp add: error_message_def)
qed

theorem get_years_rejects_foreign_characters_witness:
  "(\<exists>c \<in> set ''DENX''. c \<notin> set ''DENGZIKACHIK'')
   \<and> get_years (Inr \<lparr>get_files = (\<lambda>codes. Inr [''DENGBR23.dbc''])\<rparr>) ''DENX''
       = Inr ''Error: Only DENG, ZIKA, and CHIK are allowed.''"
proof -
  have h: "\<exists>c \<in> set ''DENX''. c \<notin> set ''DENGZIKACHIK''" by simp
  show ?thesis
    using h get_years_rejects_foreign_characters [OF refl h]
    by (simp add: error_message_def)
qed

text \<open>
  C3: every non-empty disease string, the three valid codes among them, gets the fixed
  error message: the check looks each single character up among the four-letter keys, so
  only the empty string passes it.
\<close>

theorem get_years_accepts_only_empty:
  assumes "load = Inr sinan"
  shows "(disease \<noteq> [] \<longrightarrow> get_years load disease = Inr error_message)
         \<and> get_years load ''DENG'' = Inr error_message
         \<and> get_years load ''ZIKA'' = Inr error_message
         \<and> get_years load ''CHIK'' = Inr error_message
         \<and> (invalid_disease disease \<longleftrightarrow> disease \<noteq> [])
         \<and> get_years load [] \<noteq> Inr error_message"
  using assms by (simp add: get_years_nonempty get_years_empty invalid_disease_iff)

theorem get_years_accepts_only_empty_witness:
  "get_years (Inr \<lparr>get_files = (\<lambda>codes. Inr [''CHIKBR23.dbc''])\<rparr>) ''CHIK''
     = Inr ''Error: Only DENG, ZIKA, and CHIK are allowed.''
   \<and> get_years (Inr \<lparr>get_files = (\<lambda>codes. Inr [''CHIKBR23.dbc''])\<rparr>) ''''
     = Inr ''The available data for  is from the years: 2023.''"
proof -
  have "get_years (Inr \<lparr>get_files = (\<lambda>codes. Inr [''CHIKBR23.dbc''])\<rparr>) ''''
     = Inr ''The available data for  is from the years: 2023.''"
    by code_simp
  then show ?thesis
    using get_years_accepts_only_empty
      [of "Inr \<lparr>get_files = (\<lambda>codes. Inr [''CHIKBR23.dbc''])\<rparr>"
          "\<lparr>get_files = (\<lambda>codes. Inr [''CHIKBR23.dbc''])\<rparr>" "''CHIK''"]
    by (simp add: error_message_def)
qed

lemma three_heads:
  "\<exists>x y z ws. pre @ a # b # c # rest = x # y # z # ws \<and> pre @ [a, b, c] = x # y # z # take (length pre) ws"
  by (cases pre; cases "tl pre"; cases "tl (tl pre)") auto

lemma search_BR_Some:
  "search_BR f = Some g \<Longrightarrow>
     \<exists>pre d1 d2 post. f = pre @ ''BR'' @ [d1, d2] @ post \<and> is_digit d1 \<and> is_digit d2
        \<and> g = [d1, d2] \<and> search_BR (pre @ ''BR'' @ [d1]) = None"
proof (induction f rule: search_BR.induct)
  case (1 b r d1 d2 rest)
  show ?case
  proof (cases "b = CHR ''B'' \<and> r = CHR ''R'' \<and> is_digit d1 \<and> is_digit d2")
    case True
    with 1(2) have "g = [d1, d2]" by simp
    with True show ?thesis
      by (intro exI[of _ "[]"] exI[of _ d1] exI[of _ d2] exI[of _ rest]) simp
  next
    case False
    with 1 obtain pre e1 e2 post where
      h: "r # d1 # d2 # rest = pre @ ''BR'' @ [e1, e2] @ post" "is_digit e1" "is_digit e2"
         "g = [e1, e2]" "search_BR (pre @ ''BR'' @ [e1]) = None"
      by auto
    from h(1) obtain xs where xs: "pre @ ''BR'' @ [e1] = r # d1 # d2 # xs"
      by (cases pre; cases "tl pre"; cases "tl (tl pre)") auto
    from h(5) xs have "search_BR (r # d1 # d2 # xs) = None" by simp
    with False have "search_BR (b # r # d1 # d2 # xs) = None" by simp
    moreover from xs have "(b # pre) @ ''BR'' @ [e1] = b # r # d1 # d2 # xs" by simp
    ultimately have "search_BR ((b # pre) @ ''BR'' @ [e1]) = None" by metis
    moreover from h(1) have "b # r # d1 # d2 # rest = (b # pre) @ ''BR'' @ [e1, e2] @ post"
      by simp
    ultimately show ?thesis using h(2,3,4) by blast
  qed
qed simp_all

lemma search_BR_leftmost:
  "is_digit d1 \<Longrightarrow> is_digit d2 \<Longrightarrow> search_BR (pre @ ''BR'' @ [d1]) = None \<Longrightarrow>
   search_BR (pre @ ''BR'' @ [d1, d2] @ post) = Some [d1, d2]"
proof (induction pre)
  case Nil
  then show ?case by simp
next
  case (Cons a pre)
  obtain x y z ws where
    w: "pre @ CHR ''B'' # CHR ''R'' # d1 # (d2 # post) = x # y # z # ws"
       "pre @ [CHR ''B'', CHR ''R'', d1] = x # y # z # take (length pre) ws"
    using three_heads [of pre "CHR ''B''" "CHR ''R''" d1 "d2 # post"] by auto
  from Cons.prems(3) w(2)
  have n: "search_BR (a # x # y # z # take (length pre) ws) = None" by simp
  then have c: "\<not> (a = CHR ''B'' \<and> x = CHR ''R'' \<and> is_digit y \<and> is_digit z)"
    by (auto split: if_splits)
  with n have "search_BR (x # y # z # take (length pre) ws) = None" by simp
  with w(2) have "search_BR (pre @ ''BR'' @ [d1]) = None" by simp
  with Cons have "search_BR (pre @ ''BR'' @ [d1, d2] @ post) = Some [d1, d2]" by blast
  with w(1) have "search_BR (x # y # z # ws) = Some [d1, d2]" by simp
  with c have "search_BR (a # x # y # z # ws) = Some [d1, d2]" by auto
  with w(1) show ?case by simp
qed

lemma search_BR_None:
  "search_BR f = None \<Longrightarrow>
   f \<noteq> pre @ ''BR'' @ [d1, d2] @ post \<or> \<not> is_digit d1 \<or> \<not> is_digit d2"
proof (induction pre arbitrary: f)
  case Nil then show ?case by auto
next
  case (Cons a pre)
  show ?case
  proof (cases "f = (a # pre) @ ''BR'' @ [d1, d2] @ post")
    case True
    obtain x y z ws where w: "pre @ ''BR'' @ [d1, d2] @ post = x # y # z # ws"
      by (cases pre; cases "tl pre"; cases "tl (tl pre)") auto
    with True Cons.prems have "search_BR (pre @ ''BR'' @ [d1, d2] @ post) = None"
      by (auto split: if_splits)
    with Cons.IH show ?thesis by blast
  qed simp
qed

lemma contains_fragment_iff: "contains_fragment file \<longleftrightarrow> search_BR file \<noteq> None"
proof
  assume "contains_fragment file"
  then show "search_BR file \<noteq> None"
    unfolding contains_fragment_def using search_BR_None by blast
next
  assume "search_BR file \<noteq> None"
  then obtain g where "search_BR file = Some g" by auto
  from search_BR_Some [OF this] show "contains_fragment file"
    unfolding contains_fragment_def by blast
qed

lemma year_of_file_None_iff: "year_of_file file = None \<longleftrightarrow> \<not> contains_fragment file"
  by (simp add: year_of_file_def contains_fragment_iff split: option.splits)

lemma int_of_two_digits: "int_of_digits [d1, d2] = 10 * digit_val d1 + digit_val d2"
  by (simp add: int_of_digits_def)

lemma year_of_file_leftmost:
  assumes "is_digit d1" "is_digit d2" "\<not> contains_fragment (pre @ ''BR'' @ [d1])"
  shows "year_of_file (pre @ ''BR'' @ [d1, d2] @ post)
           = Some (10 * digit_val d1 + digit_val d2 + 2000)"
proof -
  from assms(3) have "search_BR (pre @ ''BR'' @ [d1]) = None"
    by (simp add: contains_fragment_iff)
  from search_BR_leftmost [OF assms(1,2) this]
  show ?thesis by (simp add: year_of_file_def int_of_two_digits)
qed

lemma year_of_file_fragment:
  assumes "contains_fragment file"
  shows "\<exists>pre d1 d2 post. file = pre @ ''BR'' @ [d1, d2] @ post \<and> is_digit d1 \<and> is_digit d2
           \<and> \<not> contains_fragment (pre @ ''BR'' @ [d1])
           \<and> year_of_file file = Some (10 * digit_val d1 + digit_val d2 + 2000)"
proof -
  from assms obtain g where g: "search_BR file = Some g"
    by (auto simp: contains_fragment_iff)
  from search_BR_Some [OF g] obtain pre d1 d2 post where
    h: "file = pre @ ''BR'' @ [d1, d2] @ post" "is_digit d1" "is_digit d2" "g = [d1, d2]"
       "search_BR (pre @ ''BR'' @ [d1]) = None"
    by blast
  from h(5) have "\<not> contains_fragment (pre @ ''BR'' @ [d1])"
    by (simp add: contains_fragment_iff)
  moreover from g h(4) have "year_of_file file = Some (10 * digit_val d1 + digit_val d2 + 2000)"
    by (simp add: year_of_file_def int_of_two_digits)
  ultimately show ?thesis using h(1,2,3) by blast
qed

lemma mset_years_of:
  "mset (years_of files)
     = image_mset (\<lambda>f. the (year_of_file f)) (mset (filter contains_fragment files))"
proof -
  have "(\<lambda>x. year_of_file x \<noteq> None) = contains_fragment"
    by (auto simp: year_of_file_None_iff)
  then show ?thesis
    by (simp add: years_of_def map_filter_def comp_def)
qed

lemma get_years_lists_years:
  assumes "load = Inr sinan" and "\<not> invalid_disease disease"
    and "get_files sinan [disease] = Inr files"
  shows "\<exists>names. disease_names disease = Inr names
           \<and> get_years load disease
               = Inr (''The available data for '' @ join '', '' names
                      @ '' is from the years: ''
                      @ join '', '' (map str_int (years_of files)) @ ''.'')"
proof -
  from assms(2) have "disease = []" by (simp add: invalid_disease_iff)
  with assms show ?thesis by (simp add: get_years_def Let_def)
qed

text \<open>
  C9: when \<open>get_years\<close> gets past its check, the sentence it returns lists, joined by
  commas, the years derived from the file names that \<^verbatim>\<open>get_files\<close> returned, in
  ascending order; a file name contributes a year exactly when it contains \<open>BR\<close>
  followed by two digits, and that year is the two-digit number of the leftmost such
  fragment plus 2000; a file name without the fragment contributes nothing.
\<close>

theorem years_of_fragments:
  "(load = Inr sinan \<and> \<not> invalid_disease disease \<and> get_files sinan [disease] = Inr files
      \<longrightarrow> (\<exists>names. disease_names disease = Inr names
             \<and> get_years load disease
                 = Inr (''The available data for '' @ join '', '' names
                        @ '' is from the years: ''
                        @ join '', '' (map str_int (years_of files)) @ ''.'')))
   \<and> sorted (years_of files)
   \<and> mset (years_of files)
       = image_mset (\<lambda>f. the (year_of_file f)) (mset (filter contains_fragment files))
   \<and> (\<not> contains_fragment file \<longrightarrow> year_of_file file = None)
   \<and> (contains_fragment file \<longrightarrow>
        (\<exists>pre d1 d2 post. file = pre @ ''BR'' @ [d1, d2] @ post \<and> is_digit d1 \<and> is_digit d2
           \<and> \<not> contains_fragment (pre @ ''BR'' @ [d1])
           \<and> year_of_file file = Some (10 * digit_val d1 + digit_val d2 + 2000)))
   \<and> (is_digit d1 \<and> is_digit d2 \<and> \<not> contains_fragment (pre @ ''BR'' @ [d1]) \<longrightarrow>
        year_of_file (pre @ ''BR'' @ [d1, d2] @ post)
          = Some (10 * digit_val d1 + digit_val d2 + 2000))"
proof -
  have "sorted (years_of files)" by (simp add: years_of_def)
  moreover have "load = Inr sinan \<and> \<not> invalid_disease disease
      \<and> get_files sinan [disease] = Inr files
      \<longrightarrow> (\<exists>names. disease_names disease = Inr names
             \<and> get_years load disease
                 = Inr (''The available data for '' @ join '', '' names
                        @ '' is from the years: ''
                        @ join '', '' (map str_int (years_of files)) @ ''.''))"
    using get_years_lists_years by blast
  ultimately show ?thesis
    using mset_years_of year_of_file_None_iff year_of_file_fragment year_of_file_leftmost
    by blast
qed

theorem years_of_fragments_witness:
  "\<not> invalid_disease []
   \<and> get_files example_sinan [[]] = Inr [''CHIKBR23.dbc'', ''README.txt'', ''CHIKBR15.dbc'']
   \<and> get_years (Inr example_sinan) []
       = Inr ''The available data for  is from the years: 2015, 2023.''
   \<and> is_digit CHR ''2'' \<and> is_digit CHR ''3'' \<and> \<not> contains_fragment (''CHIK'' @ ''BR'' @ ''2'')
   \<and> \<not> contains_fragment ''README.txt''
   \<and> year_of_file ''CHIKBR23.dbc'' = Some 2023
   \<and> year_of_file ''README.txt'' = None
   \<and> years_of [''CHIKBR23.dbc'', ''README.txt'', ''CHIKBR15.dbc''] = [2015, 2023]
   \<and> sorted (years_of [''CHIKBR23.dbc'', ''README.txt'', ''CHIKBR15.dbc''])"
proof -
  have h: "is_digit CHR ''2''" "is_digit CHR ''3''"
      "\<not> contains_fragment (''CHIK'' @ ''BR'' @ ''2'')" "\<not> contains_fragment ''README.txt''"
    by (simp_all add: contains_fragment_iff is_digit_def)
  have g: "\<not> invalid_disease []"
      "get_files example_sinan [[]] = Inr [''CHIKBR23.dbc'', ''README.txt'', ''CHIKBR15.dbc'']"
    by (simp_all add: invalid_disease_def example_sinan_def)
  have n: "disease_names [] = Inr []" by simp
  have v: "years_of [''CHIKBR23.dbc'', ''README.txt'', ''CHIKBR15.dbc''] = [2015, 2023]"
    by code_simp
  have j: "join '', '' (map str_int [2015, 2023]) = ''2015, 2023''"
    by code_simp
  note t = years_of_fragments
    [where load = "Inr example_sinan" and sinan = example_sinan and disease = "[]"
       and files = "[''CHIKBR23.dbc'', ''README.txt'', ''CHIKBR15.dbc'']"
       and ?file = "''README.txt''" and ?d1.0 = "CHR ''2''" and ?d2.0 = "CHR ''3''"
       and pre = "''CHIK''" and post = "''.dbc''"]
  from t g n v j
  have y: "get_years (Inr example_sinan) []
       = Inr ''The available data for  is from the years: 2015, 2023.''"
    by simp
  from t h have "year_of_file ''CHIKBR23.dbc'' = Some 2023 \<and> year_of_file ''README.txt'' = None
      \<and> sorted (years_of [''CHIKBR23.dbc'', ''README.txt'', ''CHIKBR15.dbc''])"
    by (simp add: digit_val_def)
  with g y h v show ?thesis by simp
qed

section \<open>Properties of get\_data\_from\_table\<close>

lemma keep_positions_nth:
  "keep_positions keep xs = map (nth xs) (filter keep [0..<length xs])"
proof (induction xs rule: rev_induct)
  case Nil
  then show ?case by (simp add: keep_positions_def)
next
  case (snoc x xs)
  have "map (nth (xs @ [x])) (filter keep [0..<length xs])
          = map (nth xs) (filter keep [0..<length xs])"
    by (rule map_cong) (auto simp: nth_append)
  with snoc show ?case
    by (simp add: keep_positions_def enumerate_append_eq)
qed

lemma has_value_iff:
  assumes "\<forall>r \<in> set (rows df). length (snd r) = length (columns df)"
    and "j < length (columns df)"
  shows "has_value df j \<longleftrightarrow> (\<exists>r \<in> set (rows df). snd r ! j \<noteq> None)"
  using assms by (auto simp: has_value_def list_ex_iff)

lemma kept_positions_eq:
  assumes "\<forall>r \<in> set (rows df). length (snd r) = length (columns df)"
  shows "filter (has_value df) [0..<length (columns df)]
           = filter (\<lambda>j. \<exists>r \<in> set (rows df). snd r ! j \<noteq> None) [0..<length (columns df)]"
  by (rule filter_cong) (auto simp: has_value_iff [OF assms])

lemma dropna_columns_all_eq:
  assumes wf: "\<forall>r \<in> set (rows df). length (snd r) = length (columns df)"
  shows "dropna_columns_all df =
           (let kept = filter (\<lambda>j. \<exists>r \<in> set (rows df). snd r ! j \<noteq> None)
                         [0..<length (columns df)]
            in \<lparr>columns = map (nth (columns df)) kept,
                rows = map (\<lambda>r. (fst r, map (nth (snd r)) kept)) (rows df)\<rparr>)"
proof -
  have "map (\<lambda>r. (fst r, keep_positions (has_value df) (snd r))) (rows df)
          = map (\<lambda>r. (fst r, map (nth (snd r))
               (filter (\<lambda>j. \<exists>r \<in> set (rows df). snd r ! j \<noteq> None) [0..<length (columns df)])))
              (rows df)"
    by (rule map_cong) (use wf in \<open>simp_all add: keep_positions_nth kept_positions_eq [OF wf] del: not_None_eq\<close>)
  then show ?thesis
    by (simp add: dropna_columns_all_def Let_def keep_positions_nth kept_positions_eq [OF wf]
        del: not_None_eq)
qed

lemma complete_row_iff: "complete_row r \<longleftrightarrow> None \<notin> set (snd r)"
  unfolding complete_row_def list_all_iff by (metis)

lemma no_rows_no_kept:
  "rows df = [] \<Longrightarrow>
   filter (\<lambda>j. \<exists>r \<in> set (rows df). snd r ! j \<noteq> None) [0..<n] = []"
  by simp

text \<open>
  C6, as the code has it: the cleaning step first drops every column that is missing in
  all rows, then drops every row that still has a missing cell (\<^verbatim>\<open>dropna()\<close> with
  its default \<^verbatim>\<open>how="any"\<close>), and only those rows. The call returns; when no column
  or no complete row is left the result is the empty table, otherwise it has the columns
  that hold a value and, in their order, the pruned rows without a missing cell.
\<close>

theorem get_data_from_table_cleaning:
  assumes wf: "\<forall>r \<in> set (rows loaded). length (snd r) = length (columns loaded)"
    and out: "outcome (pipeline table_name years disease limit) = Inr loaded"
  shows "\<exists>data. snd (get_data_from_table pipeline table_name years disease limit verbose s)
                  = Inr data
          \<and> (let kept = filter (\<lambda>j. \<exists>r \<in> set (rows loaded). snd r ! j \<noteq> None)
                           [0..<length (columns loaded)];
                  pruned = map (\<lambda>r. (fst r, map (nth (snd r)) kept)) (rows loaded);
                  complete = filter (\<lambda>r. None \<notin> set (snd r)) pruned
              in if kept = [] \<or> complete = [] then data = empty_frame
                 else columns data = map (nth (columns loaded)) kept \<and> rows data = complete)"
proof -
  let ?kept = "filter (\<lambda>j. \<exists>r \<in> set (rows loaded). snd r ! j \<noteq> None)
                 [0..<length (columns loaded)]"
  let ?pruned = "map (\<lambda>r. (fst r, map (nth (snd r)) ?kept)) (rows loaded)"
  have p: "dropna_columns_all loaded = \<lparr>columns = map (nth (columns loaded)) ?kept, rows = ?pruned\<rparr>"
    using dropna_columns_all_eq [OF wf] by (simp add: Let_def del: not_None_eq)
  have c: "filter complete_row ?pruned = filter (\<lambda>r. None \<notin> set (snd r)) ?pruned"
    by (rule filter_cong) (simp_all add: complete_row_iff)
  have e: "rows loaded = [] \<Longrightarrow> ?kept = []" by (simp del: not_None_eq)
  have f: "snd (get_data_from_table pipeline table_name years disease limit verbose s)
             = snd (extract_and_clean (pipeline table_name years disease limit)
                 (if \<not> verbose then logging_disable CRITICAL s else s))"
    by (simp add: get_data_from_table_def split: prod.splits)
  show ?thesis
    unfolding f
    using e by (auto simp add: extract_and_clean_def run_pipeline_def out p c Let_def is_empty_def dropna_def
        simp del: set_filter not_None_eq)
qed

theorem get_data_from_table_cleaning_witness:
  "map (\<lambda>r. length (snd r)) (rows example_frame) = [3, 3]
   \<and> length (columns example_frame) = 3
   \<and> outcome (example_pipeline ''exams'' [2022, 2023] ''CHIK'' None) = Inr example_frame
   \<and> snd (get_data_from_table example_pipeline ''exams'' [2022, 2023] ''CHIK'' None True
            \<lparr>disable = NOTSET, records = []\<rparr>)
       = Inr \<lparr>columns = [''a'', ''b''], rows = [(1, [Some 2, Some 3])]\<rparr>"
proof -
  have wf: "\<forall>r \<in> set (rows example_frame). length (snd r) = length (columns example_frame)"
    by (simp add: example_frame_def)
  have out: "outcome (example_pipeline ''exams'' [2022, 2023] ''CHIK'' None) = Inr example_frame"
    by (simp add: example_pipeline_def)
  have v: "snd (get_data_from_table example_pipeline ''exams'' [2022, 2023] ''CHIK'' None True
            \<lparr>disable = NOTSET, records = []\<rparr>)
       = Inr \<lparr>columns = [''a'', ''b''], rows = [(1, [Some 2, Some 3])]\<rparr>"
    by (simp add: get_data_from_table_def extract_and_clean_def run_pipeline_def
        example_pipeline_def example_frame_def dropna_columns_all_def keep_positions_def
        has_value_def dropna_def complete_row_def is_empty_def
        logging_disable_def log_def NOTSET_def INFO_def CRITICAL_def)
  note c = get_data_from_table_cleaning
    [where loaded = example_frame and pipeline = example_pipeline
       and table_name = "''exams''" and years = "[2022, 2023]" and disease = "''CHIK''"
       and limit = None and verbose = True and s = "\<lparr>disable = NOTSET, records = []\<rparr>"]
  have l: "map (\<lambda>r. length (snd r)) (rows example_frame) = [3, 3]"
    "length (columns example_frame) = 3"
    by (simp_all add: example_frame_def)
  from l out v c [OF wf out] show ?thesis by blast
qed

text \<open>
  C6, as the specification has it, fails: row 0 of the example still holds a value after
  the all-missing column is pruned, and it is not in the returned table.
\<close>

theorem get_data_from_table_drops_partial_row:
  "(0, [Some 1, None]) \<in> set (rows (dropna_columns_all example_frame))
   \<and> has_non_null (0, [Some 1, None :: int option])
   \<and> snd (get_data_from_table example_pipeline ''exams'' [2022, 2023] ''CHIK'' None False
            \<lparr>disable = NOTSET, records = []\<rparr>)
       = Inr \<lparr>columns = [''a'', ''b''], rows = [(1, [Some 2, Some 3])]\<rparr>
   \<and> (0, [Some 1, None])
       \<notin> set (rows \<lparr>columns = [''a'', ''b''], rows = [(1, [Some 2, Some (3 :: int)])]\<rparr>)"
  by (simp add: get_data_from_table_def extract_and_clean_def run_pipeline_def
      example_pipeline_def example_frame_def dropna_columns_all_def keep_positions_def
      has_value_def dropna_def complete_row_def is_empty_def has_non_null_def
      logging_disable_def log_def NOTSET_def INFO_def CRITICAL_def)


lemma disable_log [simp]: "disable (log level msg s) = disable s"
  by (simp add: log_def)

lemma disable_fold_log [simp]: "disable (fold (\<lambda>r. log (fst r) (snd r)) as s) = disable s"
  by (induction as arbitrary: s) simp_all

lemma records_log_disabled:
  "disable s = CRITICAL \<Longrightarrow>
   records (log level msg s) = records s @ filter (\<lambda>r. CRITICAL < fst r) [(level, msg)]"
  by (simp add: log_def)

lemma records_fold_log_disabled:
  "disable s = CRITICAL \<Longrightarrow>
   records (fold (\<lambda>r. log (fst r) (snd r)) as s)
     = records s @ filter (\<lambda>r. CRITICAL < fst r) as"
proof (induction as arbitrary: s)
  case Nil
  then show ?case by simp
next
  case (Cons a as)
  have "disable (log (fst a) (snd a) s) = CRITICAL" using Cons.prems by simp
  from Cons.IH [OF this] Cons.prems show ?case
    by (simp add: records_log_disabled)
qed

lemma disable_extract_and_clean [simp]:
  "disable (fst (extract_and_clean run s)) = disable s"
  by (simp add: extract_and_clean_def run_pipeline_def logging_warning_def Let_def
      split: sum.splits)

lemma records_extract_and_clean_disabled:
  "disable s = CRITICAL \<Longrightarrow>
   records (fst (extract_and_clean run s))
     = records s @ filter (\<lambda>r. CRITICAL < fst r) (attempts run)"
  by (simp add: extract_and_clean_def run_pipeline_def logging_warning_def Let_def
      records_fold_log_disabled records_log_disabled WARNING_def CRITICAL_def
      split: sum.splits)

lemma extract_and_clean_raises:
  "outcome run = Inl e \<Longrightarrow> snd (extract_and_clean run s) = Inl e"
  by (simp add: extract_and_clean_def run_pipeline_def)

text \<open>
  C10: with \<open>verbose = False\<close> logging is disabled on entry (no record up to level
  CRITICAL gets through during the call) and the disable level is NOTSET afterwards,
  whether the call returns or an exception of the other modules propagates; with
  \<open>verbose = True\<close> the disable level is what it was.
\<close>

theorem get_data_from_table_logging:
  assumes "get_data_from_table pipeline table_name years disease limit verbose s = (s', result)"
  shows "(\<not> verbose \<longrightarrow>
            disable s' = NOTSET
            \<and> records s' = records s
                @ filter (\<lambda>r. CRITICAL < fst r) (attempts (pipeline table_name years disease limit)))
         \<and> (verbose \<longrightarrow> disable s' = disable s)
         \<and> (outcome (pipeline table_name years disease limit) = Inl e \<longrightarrow> result = Inl e)"
proof -
  let ?run = "pipeline table_name years disease limit"
  show ?thesis
  proof (cases verbose)
    case True
    with assms have "s' = fst (extract_and_clean ?run s)" "result = snd (extract_and_clean ?run s)"
      by (simp_all add: get_data_from_table_def split: prod.splits)
    with True show ?thesis by (simp add: extract_and_clean_raises)
  next
    case False
    let ?s0 = "logging_disable CRITICAL s"
    from False assms have s': "s' = logging_disable NOTSET (fst (extract_and_clean ?run ?s0))"
      and r: "result = snd (extract_and_clean ?run ?s0)"
      by (simp_all add: get_data_from_table_def split: prod.splits)
    have d: "disable ?s0 = CRITICAL" by (simp add: logging_disable_def)
    from s' have "disable s' = NOTSET" by (simp add: logging_disable_def)
    moreover from s' have "records s' = records (fst (extract_and_clean ?run ?s0))"
      by (simp add: logging_disable_def)
    with records_extract_and_clean_disabled [OF d, of ?run]
    have "records s' = records s @ filter (\<lambda>r. CRITICAL < fst r) (attempts ?run)"
      by (simp add: logging_disable_def)
    ultimately show ?thesis using False r by (simp add: extract_and_clean_raises)
  qed
qed

theorem get_data_from_table_logging_witness:
  "get_data_from_table failing_pipeline ''exams'' [2022, 2023] ''CHIK'' None False
     \<lparr>disable = WARNING, records = []\<rparr>
     = (\<lparr>disable = NOTSET, records = []\<rparr>, Inl (OtherError ''Download failed''))
   \<and> get_data_from_table failing_pipeline ''exams'' [2022, 2023] ''CHIK'' None True
     \<lparr>disable = WARNING, records = []\<rparr>
     = (\<lparr>disable = WARNING, records = [(ERROR, ''Download failed'')]\<rparr>,
        Inl (OtherError ''Download failed''))"
proof -
  have a: "get_data_from_table failing_pipeline ''exams'' [2022, 2023] ''CHIK'' None False
     \<lparr>disable = WARNING, records = []\<rparr>
     = (\<lparr>disable = NOTSET, records = []\<rparr>, Inl (OtherError ''Download failed''))"
    by (simp add: get_data_from_table_def extract_and_clean_def run_pipeline_def
        failing_pipeline_def logging_disable_def log_def
        NOTSET_def INFO_def WARNING_def ERROR_def CRITICAL_def)
  have b: "get_data_from_table failing_pipeline ''exams'' [2022, 2023] ''CHIK'' None True
     \<lparr>disable = WARNING, records = []\<rparr>
     = (\<lparr>disable = WARNING, records = [(ERROR, ''Download failed'')]\<rparr>,
        Inl (OtherError ''Download failed''))"
    by (simp add: get_data_from_table_def extract_and_clean_def run_pipeline_def
        failing_pipeline_def logging_disable_def log_def
        NOTSET_def INFO_def WARNING_def ERROR_def CRITICAL_def)
  from a b get_data_from_table_logging [OF a, of "OtherError ''Download failed''"]
  show ?thesis by simp
qed


section \<open>Properties of load\_json\<close>

lemma json_paths_supported:
  "map_of (json_paths env) language \<noteq> None \<longleftrightarrow> language = ''english'' \<or> language = ''portuguese''"
  by (simp add: json_paths_def)

lemma load_json_unsupported:
  assumes "language \<noteq> ''english''" "language \<noteq> ''portuguese''"
  shows "\<exists>m. load_json env language s = (s, Inl (ValueError m))"
  using assms by (simp add: load_json_def json_paths_def)

lemma load_json_load_failure:
  assumes "map_of (json_paths env) language = Some json_path"
    and "json_load env json_path = Inl e"
  shows "load_json env language s
           = (logging_error (load_error_message language json_path e)
                (s\<lparr>opened := opened s @ [json_path]\<rparr>), Inl e)"
  using assms by (simp add: load_json_def)

text \<open>
  C8: a language other than \<open>english\<close> and \<open>portuguese\<close> makes \<open>load_json\<close> raise
  \<open>ValueError\<close> with the state as it was, so no path has been handed to
  \<^verbatim>\<open>open\<close>; for a supported language, an exception of opening or parsing the file
  (a missing file, malformed JSON), or of \<^verbatim>\<open>dict\<close>, is logged at level ERROR and
  the same exception is raised to the caller.
\<close>

theorem load_json_errors:
  "(language \<noteq> ''english'' \<and> language \<noteq> ''portuguese'' \<longrightarrow>
      (\<exists>m. load_json env language s = (s, Inl (ValueError m))))
   \<and> (map_of (json_paths env) language = Some json_path \<and> json_load env json_path = Inl e
        \<and> disable s < ERROR \<longrightarrow>
      snd (load_json env language s) = Inl e
      \<and> records (fst (load_json env language s))
          = records s @ [(ERROR, load_error_message language json_path e)]
      \<and> opened (fst (load_json env language s)) = opened s @ [json_path])
   \<and> (map_of (json_paths env) language = Some json_path \<and> json_load env json_path = Inr doc
        \<and> dict_of env doc = Inl e \<and> disable s < ERROR \<longrightarrow>
      snd (load_json env language s) = Inl e
      \<and> last (records (fst (load_json env language s)))
          = (ERROR, load_error_message language json_path e))"
proof -
  have "map_of (json_paths env) language = Some json_path \<Longrightarrow> json_load env json_path = Inr doc
        \<Longrightarrow> dict_of env doc = Inl e \<Longrightarrow> disable s < ERROR \<Longrightarrow>
      snd (load_json env language s) = Inl e
      \<and> last (records (fst (load_json env language s)))
          = (ERROR, load_error_message language json_path e)"
    by (simp add: load_json_def logging_error_def logging_info_def log_def Let_def)
  then show ?thesis
    using load_json_unsupported [of language env s]
    by (auto simp: load_json_load_failure logging_error_def log_def)
qed

theorem load_json_errors_witness:
  "load_json example_env ''french'' example_world
     = (example_world,
        Inl (ValueError (''Language not supported. Please choose '' @ [CHR 0x27] @ ''english''
              @ [CHR 0x27] @ '' or '' @ [CHR 0x27] @ ''portuguese'' @ [CHR 0x27] @ ''.'')))
   \<and> map_of (json_paths (example_env\<lparr>json_dir := ''/gone''\<rparr>)) ''english''
       = Some ''/gone/columns_translated_english.json''
   \<and> json_load (example_env\<lparr>json_dir := ''/gone''\<rparr>) ''/gone/columns_translated_english.json''
       = Inl (FileNotFoundError ''No such file or directory'')
   \<and> disable example_world < ERROR
   \<and> snd (load_json (example_env\<lparr>json_dir := ''/gone''\<rparr>) ''english'' example_world)
       = Inl (FileNotFoundError ''No such file or directory'')
   \<and> records (fst (load_json (example_env\<lparr>json_dir := ''/gone''\<rparr>) ''english'' example_world))
       = [(ERROR, ''JSON file for '' @ [CHR 0x27] @ ''english'' @ [CHR 0x27]
                  @ '' not found in /gone/columns_translated_english.json'')]"
proof -
  have h: "map_of (json_paths (example_env\<lparr>json_dir := ''/gone''\<rparr>)) ''english''
             = Some ''/gone/columns_translated_english.json''"
      "json_load (example_env\<lparr>json_dir := ''/gone''\<rparr>) ''/gone/columns_translated_english.json''
             = Inl (FileNotFoundError ''No such file or directory'')"
      "disable example_world < ERROR"
    by (simp_all add: json_paths_def example_env_def example_json_load_def example_world_def
        ERROR_def NOTSET_def)
  have v: "load_json example_env ''french'' example_world
     = (example_world,
        Inl (ValueError (''Language not supported. Please choose '' @ [CHR 0x27] @ ''english''
              @ [CHR 0x27] @ '' or '' @ [CHR 0x27] @ ''portuguese'' @ [CHR 0x27] @ ''.'')))"
    by (simp add: load_json_def json_paths_def)
  from h v
    load_json_errors [where language = "''english''"
      and env = "example_env\<lparr>json_dir := ''/gone''\<rparr>" and s = example_world
      and json_path = "''/gone/columns_translated_english.json''"
      and e = "FileNotFoundError ''No such file or directory''"]
  show ?thesis by (simp add: example_world_def)
qed

section \<open>Properties of rename\_db\_columns\<close>

text \<open>
  C7: when the database file does not exist, \<open>rename_db_columns\<close> raises
  \<open>FileNotFoundError\<close> at once: no path has been handed to \<^verbatim>\<open>open\<close> (the mapping
  is not loaded), no call has been made on a connection, and the database is as it was.
\<close>

theorem rename_db_columns_missing_database:
  assumes "\<not> path_exists env db_path"
  shows "rename_db_columns env db_path table_name language s
           = (logging_error (''Database not found at '' @ db_path) s,
              Inl (FileNotFoundError (''Database not found at '' @ db_path)))
         \<and> opened (fst (rename_db_columns env db_path table_name language s)) = opened s
         \<and> events (fst (rename_db_columns env db_path table_name language s)) = events s
         \<and> disk (fst (rename_db_columns env db_path table_name language s)) = disk s"
  using assms by (simp add: rename_db_columns_def logging_error_def log_def)

theorem rename_db_columns_missing_database_witness:
  "\<not> path_exists example_env ''/pkg/data/db/absent.db''
   \<and> rename_db_columns example_env ''/pkg/data/db/absent.db'' ''sinan'' ''english'' example_world
       = (example_world\<lparr>records := [(ERROR, ''Database not found at /pkg/data/db/absent.db'')]\<rparr>,
          Inl (FileNotFoundError ''Database not found at /pkg/data/db/absent.db''))"
proof -
  have h: "\<not> path_exists example_env ''/pkg/data/db/absent.db''"
    by (simp add: example_env_def)
  from h rename_db_columns_missing_database [OF h, of "''sinan''" "''english''" example_world]
  show ?thesis
    by (simp add: logging_error_def log_def example_world_def ERROR_def NOTSET_def)
qed


lemma dict_set_diagonal:
  "\<forall>p \<in> set d. fst p = snd p \<Longrightarrow> k = v \<Longrightarrow> \<forall>p \<in> set (dict_set d k v). fst p = snd p"
  by (induction d k v rule: dict_set.induct) auto

lemma existing_columns_diagonal:
  assumes "existing_columns env described d = Inr existing"
    and "\<forall>p \<in> set d. fst p = snd p"
    and "\<forall>col \<in> set described. \<forall>name rest. col = name # rest \<longrightarrow> unidecode env name = name"
  shows "\<forall>p \<in> set existing. fst p = snd p"
  using assms
proof (induction described arbitrary: d)
  case Nil
  then show ?case by simp
next
  case (Cons col described)
  from Cons.prems(1) obtain name rest where col: "col = name # rest"
    by (cases col) auto
  with Cons.prems(3) have u: "unidecode env name = name" by simp
  from Cons.prems(1) col
  have "existing_columns env described (dict_set d name (unidecode env name)) = Inr existing"
    by simp
  moreover from Cons.prems(2) u
  have "\<forall>p \<in> set (dict_set d name (unidecode env name)). fst p = snd p"
    by (simp add: dict_set_diagonal)
  ultimately show ?case using Cons.IH Cons.prems(3) by simp
qed

lemma normalize_columns_diagonal:
  "\<forall>p \<in> set existing. fst p = snd p \<Longrightarrow>
   normalize_columns env table_name existing s w = (s, Inr w)"
  by (induction existing) auto

text \<open>
  C4: on a schema whose column names all equal their accent-stripped form, the
  accent-normalization loop issues no statement and leaves the state and the working
  content of the transaction as they were.
\<close>

theorem normalize_columns_idempotent:
  assumes "existing_columns env described [] = Inr existing"
    and "\<forall>col \<in> set described. \<forall>name rest. col = name # rest \<longrightarrow> unidecode env name = name"
  shows "normalize_columns env table_name existing s w = (s, Inr w)"
proof -
  from existing_columns_diagonal [OF assms(1) _ assms(2)]
  have "\<forall>p \<in> set existing. fst p = snd p" by simp
  then show ?thesis by (rule normalize_columns_diagonal)
qed

theorem normalize_columns_idempotent_witness:
  "existing_columns example_env [[''NU_ANO'', ''VARCHAR''], [''Se'', ''VARCHAR'']] []
     = Inr [(''NU_ANO'', ''NU_ANO''), (''Se'', ''Se'')]
   \<and> unidecode example_env ''NU_ANO'' = ''NU_ANO''
   \<and> unidecode example_env ''Se'' = ''Se''
   \<and> normalize_columns example_env ''sinan'' [(''NU_ANO'', ''NU_ANO''), (''Se'', ''Se'')]
        example_world [''NU_ANO'', ''Se'']
       = (example_world, Inr [''NU_ANO'', ''Se''])"
proof -
  have a: "existing_columns example_env [[''NU_ANO'', ''VARCHAR''], [''Se'', ''VARCHAR'']] []
     = Inr [(''NU_ANO'', ''NU_ANO''), (''Se'', ''Se'')]"
    by (simp add: example_env_def example_unidecode_def)
  have b: "\<forall>col \<in> set [[''NU_ANO'', ''VARCHAR''], [''Se'', ''VARCHAR'']].
         \<forall>name rest. col = name # rest \<longrightarrow> unidecode example_env name = name"
    by (simp add: example_env_def example_unidecode_def)
  have c: "unidecode example_env ''NU_ANO'' = ''NU_ANO''" "unidecode example_env ''Se'' = ''Se''"
    by (simp_all add: example_env_def example_unidecode_def)
  from a c normalize_columns_idempotent [OF a b, of "''sinan''" example_world "[''NU_ANO'', ''Se'']"]
  show ?thesis by blast
qed

lemma log_frame [simp]:
  "disk (log level msg s) = disk s" "events (log level msg s) = events s"
  "opened (log level msg s) = opened s"
  by (simp_all add: log_def)

lemma logging_frame [simp]:
  "disk (logging_info msg s) = disk s" "events (logging_info msg s) = events s"
  "disk (logging_warning msg s) = disk s" "events (logging_warning msg s) = events s"
  "disk (logging_error msg s) = disk s" "events (logging_error msg s) = events s"
  by (simp_all add: logging_info_def logging_warning_def logging_error_def)

lemma event_frame [simp]:
  "disk (event ev s) = disk s" "events (event ev s) = events s @ [ev]"
  "records (event ev s) = records s" "disable (event ev s) = disable s"
  by (simp_all add: event_def)

lemma fold_warning_frame [simp]:
  "disk (fold (\<lambda>col. logging_warning ('' - '' @ col)) unmapped s) = disk s"
  "events (fold (\<lambda>col. logging_warning ('' - '' @ col)) unmapped s) = events s"
  by (induction unmapped arbitrary: s) simp_all

lemma report_unmapped_frame [simp]:
  "disk (report_unmapped unmapped s) = disk s" "events (report_unmapped unmapped s) = events s"
  by (simp_all add: report_unmapped_def del: append.simps)

lemma load_json_frame:
  "load_json env language s = (s1, r) \<Longrightarrow> disk s1 = disk s \<and> events s1 = events s"
  by (auto simp: load_json_def Let_def split: option.splits sum.splits)

lemma conn_execute_frame:
  "conn_execute env stmt s w = (s1, r) \<Longrightarrow>
   disk s1 = disk s \<and> events s1 = events s @ map Execute [stmt]"
  by (auto simp: conn_execute_def)

lemma normalize_columns_frame:
  "normalize_columns env table_name existing s w = (s1, r) \<Longrightarrow>
   disk s1 = disk s \<and> (\<exists>stmts. events s1 = events s @ map Execute stmts)"
proof (induction existing arbitrary: s w)
  case Nil
  then show ?case by simp
next
  case (Cons p existing)
  obtain col normalized_col where p: "p = (col, normalized_col)" by (cases p)
  show ?case
  proof (cases "col = normalized_col")
    case True
    with Cons p show ?thesis by simp
  next
    case False
    let ?stmt = "rename_statement table_name col normalized_col"
    obtain s2 r2 where ex: "conn_execute env ?stmt s w = (s2, r2)" by (cases "conn_execute env ?stmt s w")
    from conn_execute_frame [OF ex]
    have f2: "disk s2 = disk s" "events s2 = events s @ map Execute [?stmt]" by simp_all
    show ?thesis
    proof (cases r2)
      case (Inl e)
      with Cons.prems p False ex have "s1 = s2" by simp
      with f2 show ?thesis by blast
    next
      case (Inr wr)
      obtain w2 fetched where wr: "wr = (w2, fetched)" by (cases wr)
      let ?s3 = "logging_info
                  (''Removed accents from column '' @ [CHR 0x27] @ col @ [CHR 0x27]
                   @ '' to '' @ [CHR 0x27] @ normalized_col @ [CHR 0x27]) s2"
      from Cons.prems p False ex Inr wr
      have "normalize_columns env table_name existing ?s3 w2 = (s1, r)" by simp
      from Cons.IH [OF this] obtain stmts where
        "disk s1 = disk ?s3" "events s1 = events ?s3 @ map Execute stmts" by blast
      with f2 have "disk s1 = disk s" "events s1 = events s @ map Execute (?stmt # stmts)"
        by simp_all
      then show ?thesis by blast
    qed
  qed
qed

lemma apply_mapping_frame:
  "apply_mapping env table_name vals mapping s w unmapped = (s1, r) \<Longrightarrow>
   disk s1 = disk s \<and> (\<exists>stmts. events s1 = events s @ map Execute stmts)"
proof (induction mapping arbitrary: s w unmapped)
  case Nil
  then show ?case by simp
next
  case (Cons p mapping)
  obtain old_name new_name where p: "p = (old_name, new_name)" by (cases p)
  show ?case
  proof (cases "unidecode env old_name \<in> set vals")
    case False
    with Cons p show ?thesis by (simp add: Let_def)
  next
    case True
    let ?stmt = "rename_statement table_name (unidecode env old_name) new_name"
    obtain s2 r2 where ex: "conn_execute env ?stmt s w = (s2, r2)" by (cases "conn_execute env ?stmt s w")
    from conn_execute_frame [OF ex]
    have f2: "disk s2 = disk s" "events s2 = events s @ map Execute [?stmt]" by simp_all
    show ?thesis
    proof (cases r2)
      case (Inl e)
      with Cons.prems p True ex have "s1 = s2" by (simp add: Let_def)
      with f2 show ?thesis by blast
    next
      case (Inr wr)
      obtain w2 fetched where wr: "wr = (w2, fetched)" by (cases wr)
      from Cons.prems p True ex Inr wr
      have "apply_mapping env table_name vals mapping s2 w2 unmapped = (s1, r)"
        by (simp add: Let_def)
      from Cons.IH [OF this] obtain stmts where
        "disk s1 = disk s2" "events s1 = events s2 @ map Execute stmts" by blast
      with f2 have "disk s1 = disk s" "events s1 = events s @ map Execute (?stmt # stmts)"
        by simp_all
      then show ?thesis by blast
    qed
  qed
qed


lemma trail_trans:
  "\<exists>a. e1 = e0 @ map Execute a \<Longrightarrow> \<exists>b. e2 = e1 @ map Execute b \<Longrightarrow>
   \<exists>c. e2 = e0 @ map Execute c"
  by (metis append_assoc map_append)

lemma in_transaction_frame:
  assumes "in_transaction env table_name mapping s = (s1, r)"
  shows "(\<forall>e. r = Inl e \<longrightarrow>
            disk s1 = disk s \<and> (\<exists>stmts. events s1 = events s @ map Execute stmts))
         \<and> (\<forall>u. r = Inr u \<longrightarrow> (\<exists>stmts. events s1 = events s @ map Execute stmts @ [Commit]))"
proof -
  let ?d = "''DESCRIBE '' @ table_name"
  obtain s2 r2 where ex: "conn_execute env ?d s (disk s) = (s2, r2)"
    by (cases "conn_execute env ?d s (disk s)")
  from conn_execute_frame [OF ex]
  have f2: "disk s2 = disk s" "\<exists>stmts. events s2 = events s @ map Execute stmts" by blast+
  show ?thesis
  proof (cases r2)
    case (Inl e)
    with assms ex have "s1 = s2" "r = Inl e" by (simp_all add: in_transaction_def)
    with f2 show ?thesis by simp
  next
    case (Inr wr)
    obtain w1 described where wr: "wr = (w1, described)" by (cases wr)
    show ?thesis
    proof (cases "existing_columns env described []")
      case (Inl e)
      with assms ex Inr wr have "s1 = s2" "r = Inl e" by (simp_all add: in_transaction_def)
      with f2 show ?thesis by simp
    next
      case existing: (Inr existing)
      obtain s3 r3 where n: "normalize_columns env table_name existing s2 w1 = (s3, r3)"
        by (cases "normalize_columns env table_name existing s2 w1")
      from normalize_columns_frame [OF n] f2
      have f3: "disk s3 = disk s" "\<exists>stmts. events s3 = events s @ map Execute stmts"
        by (simp, metis trail_trans)
      show ?thesis
      proof (cases r3)
        case (Inl e)
        with assms ex Inr wr existing n have "s1 = s3" "r = Inl e"
          by (simp_all add: in_transaction_def)
        with f3 show ?thesis by simp
      next
        case w2: (Inr w2)
        obtain s4 r4 where
          a: "apply_mapping env table_name (map snd existing) mapping s3 w2 [] = (s4, r4)"
          by (cases "apply_mapping env table_name (map snd existing) mapping s3 w2 []")
        from apply_mapping_frame [OF a] f3
        have f4: "disk s4 = disk s" "\<exists>stmts. events s4 = events s @ map Execute stmts"
          by (simp, metis trail_trans)
        show ?thesis
        proof (cases r4)
          case (Inl e)
          with assms ex Inr wr existing n w2 a have "s1 = s4" "r = Inl e"
            by (simp_all add: in_transaction_def)
          with f4 show ?thesis by simp
        next
          case wu: (Inr wu)
          obtain w3 unmapped where wu': "wu = (w3, unmapped)" by (cases wu)
          show ?thesis
          proof (cases "commit_db env w3")
            case (Some e)
            with assms ex Inr wr existing n w2 a wu wu' have "s1 = s4" "r = Inl e"
              by (simp_all add: in_transaction_def)
            with f4 show ?thesis by simp
          next
            case None
            with assms ex Inr wr existing n w2 a wu wu'
            have "s1 = event Commit (s4\<lparr>disk := w3\<rparr>)" "r = Inr unmapped"
              by (simp_all add: in_transaction_def)
            with f4 show ?thesis by (auto simp: event_def)
          qed
        qed
      qed
    qed
  qed
qed

text \<open>
  C1: every statement of one invocation runs between one \<^verbatim>\<open>begin\<close> and one
  \<^verbatim>\<open>commit\<close> or \<^verbatim>\<open>rollback\<close>. When \<open>rename_db_columns\<close> raises, the database
  is as it was before the call. When a step inside the transaction raises, the handler
  logs the error, rolls the transaction back and the same exception reaches the caller.
\<close>

theorem rename_db_columns_transaction:
  assumes "rename_db_columns env db_path table_name language s = (s', result)"
  shows "(\<forall>e. result = Inl e \<longrightarrow>
            disk s' = disk s
            \<and> (events s' = events s
               \<or> (\<exists>stmts. events s' = events s @ [Connect, Begin] @ map Execute stmts @ [Rollback])))
         \<and> (result = Inr () \<longrightarrow>
              (\<exists>stmts. events s' = events s @ [Connect, Begin] @ map Execute stmts @ [Commit, Close]))
         \<and> (\<forall>s1 mapping s2 e.
              path_exists env db_path \<and> load_json env language s = (s1, Inr mapping)
              \<and> connect env db_path = None
              \<and> in_transaction env table_name mapping (event Begin (event Connect s1)) = (s2, Inl e)
              \<longrightarrow> result = Inl e \<and> disk s' = disk s \<and> last (events s') = Rollback
                  \<and> s' = event Rollback
                       (logging_error (''Error renaming columns in DuckDB: '' @ str_error e) s2))"
proof (cases "path_exists env db_path")
  case False
  with assms show ?thesis by (auto simp: rename_db_columns_def)
next
  case exists: True
  obtain s1 r1 where lj: "load_json env language s = (s1, r1)"
    by (cases "load_json env language s")
  from load_json_frame [OF lj] have f1: "disk s1 = disk s" "events s1 = events s" by simp_all
  show ?thesis
  proof (cases r1)
    case (Inl e)
    with assms exists lj have "s' = s1" "result = Inl e" by (simp_all add: rename_db_columns_def)
    with f1 lj Inl show ?thesis by simp
  next
    case mapping: (Inr mapping)
    with assms exists lj
    have t: "rename_in_try env db_path table_name mapping s1 = (s', result)"
      by (simp add: rename_db_columns_def)
    show ?thesis
    proof (cases "connect env db_path")
      case (Some e)
      with t have "disk s' = disk s1" "events s' = events s1" "\<exists>m. result = Inl (UnboundLocalError m)"
        by (auto simp: rename_in_try_def)
      with f1 Some show ?thesis by auto
    next
      case None
      let ?s0 = "event Begin (event Connect s1)"
      obtain s2 r2 where it: "in_transaction env table_name mapping ?s0 = (s2, r2)"
        by (cases "in_transaction env table_name mapping ?s0")
      note fr = in_transaction_frame [OF it]
      have e0: "events ?s0 = events s @ [Connect, Begin]" "disk ?s0 = disk s"
        using f1 by simp_all
      show ?thesis
      proof (cases r2)
        case (Inl e)
        with t None it
        have r: "result = Inl e"
          and s': "s' = event Rollback
                     (logging_error (''Error renaming columns in DuckDB: '' @ str_error e) s2)"
          by (simp_all add: rename_in_try_def)
        from fr Inl obtain stmts where
          "disk s2 = disk ?s0" "events s2 = events ?s0 @ map Execute stmts" by blast
        with e0 s' have "disk s' = disk s"
          "events s' = events s @ [Connect, Begin] @ map Execute stmts @ [Rollback]"
          by simp_all
        moreover from this have "last (events s') = Rollback" by simp
        ultimately show ?thesis using r s' lj mapping it Inl by auto
      next
        case (Inr unmapped)
        with t None it
        have r: "result = Inr ()"
          and s': "s' = report_unmapped unmapped (event Close s2)"
          by (simp_all add: rename_in_try_def)
        from fr Inr obtain stmts where
          "events s2 = events ?s0 @ map Execute stmts @ [Commit]" by blast
        with e0 s' have "events s' = events s @ [Connect, Begin] @ map Execute stmts @ [Commit, Close]"
          by simp
        with r lj mapping it Inr show ?thesis by auto
      qed
    qed
  qed
qed


theorem rename_db_columns_transaction_witness:
  "path_exists example_env ''/pkg/data/db/db.db''
   \<and> connect example_env ''/pkg/data/db/db.db'' = None
   \<and> snd (load_json example_env ''portuguese'' example_world)
       = Inr [(''NU_ANO'', ''ano''), (''NU_IDADE'', ''ano'')]
   \<and> snd (in_transaction example_env ''sinan'' [(''NU_ANO'', ''ano''), (''NU_IDADE'', ''ano'')]
            (event Begin (event Connect (fst (load_json example_env ''portuguese'' example_world)))))
       = Inl (OtherError ''Catalog Error'')
   \<and> snd (rename_db_columns example_env ''/pkg/data/db/db.db'' ''sinan'' ''portuguese''
          example_world) = Inl (OtherError ''Catalog Error'')
   \<and> disk (fst (rename_db_columns example_env ''/pkg/data/db/db.db'' ''sinan'' ''portuguese''
          example_world)) = disk example_world
   \<and> last (events (fst (rename_db_columns example_env ''/pkg/data/db/db.db'' ''sinan''
          ''portuguese'' example_world))) = Rollback
   \<and> events (fst (rename_db_columns example_env ''/pkg/data/db/db.db'' ''sinan'' ''portuguese''
          example_world))
       = [Connect, Begin, Execute ''DESCRIBE sinan'',
          Execute (rename_statement ''sinan'' ''NU_ANO'' ''ano''),
          Execute (rename_statement ''sinan'' ''NU_IDADE'' ''ano''), Rollback]"
proof -
  let ?db = "''/pkg/data/db/db.db''"
  let ?mapping = "[(''NU_ANO'', ''ano''), (''NU_IDADE'', ''ano'')]"
  let ?s1 = "fst (load_json example_env ''portuguese'' example_world)"
  let ?it = "in_transaction example_env ''sinan'' ?mapping (event Begin (event Connect ?s1))"
  let ?run = "rename_db_columns example_env ?db ''sinan'' ''portuguese'' example_world"
  have ex: "path_exists example_env ?db" by code_simp
  have cn: "connect example_env ?db = None" by code_simp
  have lj0: "snd (load_json example_env ''portuguese'' example_world) = Inr ?mapping"
    by code_simp
  then have lj: "load_json example_env ''portuguese'' example_world = (?s1, Inr ?mapping)"
    by (metis prod.collapse)
  have it0: "snd ?it = Inl (OtherError ''Catalog Error'')" by code_simp
  then have it: "?it = (fst ?it, Inl (OtherError ''Catalog Error''))"
    by (metis prod.collapse)
  have run: "?run = (fst ?run, snd ?run)" by simp
  have ev: "events (fst ?run)
       = [Connect, Begin, Execute ''DESCRIBE sinan'',
          Execute (rename_statement ''sinan'' ''NU_ANO'' ''ano''),
          Execute (rename_statement ''sinan'' ''NU_IDADE'' ''ano''), Rollback]"
    by code_simp
  from rename_db_columns_transaction [OF run] ex lj cn it
  have "snd ?run = Inl (OtherError ''Catalog Error'') \<and> disk (fst ?run) = disk example_world
        \<and> last (events (fst ?run)) = Rollback"
    by blast
  with ex cn lj0 it0 ev show ?thesis by simp
qed


lemma disable_frame [simp]:
  "disable (logging_info msg s) = disable s" "disable (logging_warning msg s) = disable s"
  "disable (logging_error msg s) = disable s"
  by (simp_all add: logging_info_def logging_warning_def logging_error_def log_def)

lemma load_json_disable:
  "load_json env language s = (s1, r) \<Longrightarrow> disable s1 = disable s"
  by (auto simp: load_json_def Let_def split: option.splits sum.splits)

lemma normalize_columns_disable:
  "normalize_columns env table_name existing s w = (s1, r) \<Longrightarrow> disable s1 = disable s"
proof (induction existing arbitrary: s w)
  case Nil
  then show ?case by simp
next
  case (Cons p existing)
  obtain col normalized_col where p: "p = (col, normalized_col)" by (cases p)
  show ?case
  proof (cases "col = normalized_col")
    case True
    with Cons p show ?thesis by simp
  next
    case False
    show ?thesis
    proof (cases "execute env w (rename_statement table_name col normalized_col)")
      case (Inl e)
      with Cons.prems p False show ?thesis by (auto simp: conn_execute_def)
    next
      case (Inr wr)
      obtain w2 fetched where "wr = (w2, fetched)" by (cases wr)
      with Cons.prems p False Inr
      obtain s2 where "normalize_columns env table_name existing s2 w2 = (s1, r)"
        "disable s2 = disable s"
        by (auto simp: conn_execute_def)
      with Cons.IH show ?thesis by metis
    qed
  qed
qed

lemma apply_mapping_disable:
  "apply_mapping env table_name vals mapping s w unmapped = (s1, r) \<Longrightarrow>
   disable s1 = disable s \<and> records s1 = records s"
proof (induction mapping arbitrary: s w unmapped)
  case Nil
  then show ?case by simp
next
  case (Cons p mapping)
  obtain old_name new_name where p: "p = (old_name, new_name)" by (cases p)
  show ?case
  proof (cases "unidecode env old_name \<in> set vals")
    case False
    with Cons p show ?thesis by (simp add: Let_def)
  next
    case True
    show ?thesis
    proof (cases "execute env w (rename_statement table_name (unidecode env old_name) new_name)")
      case (Inl e)
      with Cons.prems p True show ?thesis by (auto simp: conn_execute_def Let_def)
    next
      case (Inr wr)
      obtain w2 fetched where "wr = (w2, fetched)" by (cases wr)
      with Cons.prems p True Inr
      obtain s2 where "apply_mapping env table_name vals mapping s2 w2 unmapped = (s1, r)"
        "disable s2 = disable s" "records s2 = records s"
        by (auto simp: conn_execute_def Let_def)
      with Cons.IH show ?thesis by metis
    qed
  qed
qed

lemma in_transaction_disable:
  "in_transaction env table_name mapping s = (s1, r) \<Longrightarrow> disable s1 = disable s"
  by (auto simp: in_transaction_def conn_execute_def
      split: sum.splits prod.splits option.splits
      dest!: normalize_columns_disable apply_mapping_disable)

lemma apply_mapping_filter:
  "apply_mapping env table_name vals mapping s w unmapped =
     (case apply_mapping env table_name vals (filter (matched env vals) mapping) s w [] of
        (s1, Inl e) \<Rightarrow> (s1, Inl e)
      | (s1, Inr (w1, u)) \<Rightarrow>
          (s1, Inr (w1, unmapped @ map fst (filter (\<lambda>p. \<not> matched env vals p) mapping))))"
proof (induction mapping arbitrary: s w unmapped)
  case Nil
  then show ?case by simp
next
  case (Cons p mapping)
  obtain old_name new_name where p: "p = (old_name, new_name)" by (cases p)
  show ?case
  proof (cases "unidecode env old_name \<in> set vals")
    case False
    then have "\<not> matched env vals p" by (simp add: matched_def p)
    then have f: "filter (matched env vals) (p # mapping) = filter (matched env vals) mapping"
      "filter (\<lambda>p. \<not> matched env vals p) (p # mapping)
         = p # filter (\<lambda>p. \<not> matched env vals p) mapping"
      by simp_all
    have "apply_mapping env table_name vals (p # mapping) s w unmapped
            = apply_mapping env table_name vals mapping s w (unmapped @ [old_name])"
      using False by (simp add: p Let_def)
    also note Cons.IH [of s w "unmapped @ [old_name]"]
    finally show ?thesis
      unfolding f by (simp add: p split: prod.splits sum.splits)
  next
    case True
    then have "matched env vals p" by (simp add: matched_def p)
    then have f: "filter (matched env vals) (p # mapping) = p # filter (matched env vals) mapping"
      "filter (\<lambda>p. \<not> matched env vals p) (p # mapping)
         = filter (\<lambda>p. \<not> matched env vals p) mapping"
      by simp_all
    let ?stmt = "rename_statement table_name (unidecode env old_name) new_name"
    have step: "\<And>m u. apply_mapping env table_name vals (p # m) s w u =
        (case conn_execute env ?stmt s w of
           (s1, Inl e) \<Rightarrow> (s1, Inl e)
         | (s1, Inr (w1, _)) \<Rightarrow> apply_mapping env table_name vals m s1 w1 u)"
      using True by (simp add: p Let_def)
    show ?thesis
    proof (cases "conn_execute env ?stmt s w")
      case (Pair s2 r2)
      show ?thesis
      proof (cases r2)
        case (Inl e)
        with Pair show ?thesis unfolding f step by simp
      next
        case (Inr wr)
        obtain w2 fetched where "wr = (w2, fetched)" by (cases wr)
        with Pair Inr Cons.IH [of s2 w2 unmapped] show ?thesis
          unfolding f step by simp
      qed
    qed
  qed
qed

lemma in_transaction_filter:
  assumes "execute env (disk s) (''DESCRIBE '' @ table_name) = Inr (w1, described)"
    and "existing_columns env described [] = Inr existing"
  shows "in_transaction env table_name mapping s =
     (case in_transaction env table_name
             (filter (matched env (map snd existing)) mapping) s of
        (s1, Inl e) \<Rightarrow> (s1, Inl e)
      | (s1, Inr u) \<Rightarrow>
          (s1, Inr (map fst (filter (\<lambda>p. \<not> matched env (map snd existing) p) mapping))))"
proof -
  let ?vals = "map snd existing"
  let ?s1 = "event (Execute (''DESCRIBE '' @ table_name)) s"
  have unfold: "\<And>m. in_transaction env table_name m s =
     (case normalize_columns env table_name existing ?s1 w1 of
        (s2, Inl e) \<Rightarrow> (s2, Inl e)
      | (s2, Inr w2) \<Rightarrow>
          (case apply_mapping env table_name ?vals m s2 w2 [] of
             (s3, Inl e) \<Rightarrow> (s3, Inl e)
           | (s3, Inr (w3, unmapped_columns)) \<Rightarrow>
               (case commit_db env w3 of
                  Some e \<Rightarrow> (s3, Inl e)
                | None \<Rightarrow> (event Commit (s3\<lparr>disk := w3\<rparr>), Inr unmapped_columns))))"
    using assms by (simp add: in_transaction_def conn_execute_def)
  show ?thesis
    unfolding unfold
    by (subst apply_mapping_filter)
       (simp split: prod.splits sum.splits option.splits)
qed


lemma fold_warning_records:
  "disable s < WARNING \<Longrightarrow>
   records (fold (\<lambda>col. logging_warning ('' - '' @ col)) unmapped s)
     = records s @ map (\<lambda>col. (WARNING, '' - '' @ col)) unmapped"
proof (induction unmapped arbitrary: s)
  case Nil
  then show ?case by simp
next
  case (Cons col unmapped)
  have "disable (logging_warning ('' - '' @ col) s) < WARNING"
    using Cons.prems by simp
  from Cons.IH [OF this] Cons.prems show ?case
    by (simp add: logging_warning_def log_def)
qed

lemma report_unmapped_records:
  assumes "disable s < WARNING" and "name \<in> set unmapped"
  shows "(WARNING, '' - '' @ name) \<in> set (records (report_unmapped unmapped s))"
proof -
  let ?s1 = "logging_warning
     (''The following columns were not found in the JSON mapping or database ''
      @ ''and were not renamed:'') s"
  have "disable ?s1 < WARNING" using assms(1) by simp
  from fold_warning_records [OF this, of unmapped] assms(2)
  have "(WARNING, '' - '' @ name)
          \<in> set (records (fold (\<lambda>col. logging_warning ('' - '' @ col)) unmapped ?s1))"
    by (simp del: append.simps)
  moreover from assms(2) have "unmapped \<noteq> []" by auto
  ultimately show ?thesis by (simp add: report_unmapped_def del: append.simps)
qed

text \<open>
  C5: a mapping entry whose accent-stripped key is none of the normalized column names
  does not change how the call ends: with it, \<open>rename_db_columns\<close> returns or raises
  exactly as the same \<^verbatim>\<open>try\<close> statement does on the mapping without the
  non-matching entries, after the same calls on the connection (so the entry causes no
  rename) and with the same database. When the call returns, having committed, the name
  of each non-matching entry is logged at level WARNING.
\<close>

theorem rename_db_columns_unmapped:
  assumes ex: "path_exists env db_path"
    and lj: "load_json env language s = (s1, Inr mapping)"
    and cn: "connect env db_path = None"
    and ds: "execute env (disk s) (''DESCRIBE '' @ table_name) = Inr (w1, described)"
    and ec: "existing_columns env described [] = Inr existing"
    and run: "rename_db_columns env db_path table_name language s = (s', result)"
    and run': "rename_in_try env db_path table_name
                 (filter (matched env (map snd existing)) mapping) s1 = (s'', result'')"
  shows "result = result'' \<and> events s' = events s'' \<and> disk s' = disk s''
         \<and> (result = Inr () \<longrightarrow> disable s < WARNING \<longrightarrow>
              (\<forall>entry \<in> set mapping. \<not> matched env (map snd existing) entry \<longrightarrow>
                 (WARNING, '' - '' @ fst entry) \<in> set (records s')))"
proof -
  let ?s0 = "event Begin (event Connect s1)"
  let ?m = "filter (matched env (map snd existing)) mapping"
  let ?u = "map fst (filter (\<lambda>p. \<not> matched env (map snd existing) p) mapping)"
  from load_json_frame [OF lj] load_json_disable [OF lj]
  have f1: "disk s1 = disk s" "disable s1 = disable s" by simp_all
  from ex lj run have t: "rename_in_try env db_path table_name mapping s1 = (s', result)"
    by (simp add: rename_db_columns_def)
  from ds f1 have ds0: "execute env (disk ?s0) (''DESCRIBE '' @ table_name) = Inr (w1, described)"
    by simp
  note flt = in_transaction_filter [OF ds0 ec, of mapping]
  obtain s2 r2 where it: "in_transaction env table_name ?m ?s0 = (s2, r2)"
    by (cases "in_transaction env table_name ?m ?s0")
  from in_transaction_disable [OF it] f1 have d2: "disable s2 = disable s" by simp
  show ?thesis
  proof (cases r2)
    case (Inl e)
    with flt it have "in_transaction env table_name mapping ?s0 = (s2, Inl e)" by simp
    with t cn have a: "result = Inl e"
      "s' = event Rollback
              (logging_error (''Error renaming columns in DuckDB: '' @ str_error e) s2)"
      by (simp_all add: rename_in_try_def)
    from run' cn it Inl have b: "result'' = Inl e"
      "s'' = event Rollback
              (logging_error (''Error renaming columns in DuckDB: '' @ str_error e) s2)"
      by (simp_all add: rename_in_try_def)
    from a b show ?thesis by simp
  next
    case (Inr u)
    with flt it have full: "in_transaction env table_name mapping ?s0 = (s2, Inr ?u)" by simp
    from t cn full have a: "s' = report_unmapped ?u (event Close s2)" "result = Inr ()"
      by (simp_all add: rename_in_try_def)
    from run' cn it Inr have b: "s'' = report_unmapped u (event Close s2)" "result'' = Inr ()"
      by (simp_all add: rename_in_try_def)
    have "\<forall>entry \<in> set mapping. \<not> matched env (map snd existing) entry \<longrightarrow>
            disable s < WARNING \<longrightarrow> (WARNING, '' - '' @ fst entry) \<in> set (records s')"
    proof (intro ballI impI)
      fix entry
      assume "entry \<in> set mapping" "\<not> matched env (map snd existing) entry"
        and "disable s < WARNING"
      then have "fst entry \<in> set ?u" "disable (event Close s2) < WARNING"
        using d2 by auto
      from report_unmapped_records [OF this(2) this(1)] a(1)
      show "(WARNING, '' - '' @ fst entry) \<in> set (records s')" by simp
    qed
    with a b show ?thesis by simp
  qed
qed


theorem rename_db_columns_unmapped_witness:
  "path_exists example_env ''/pkg/data/db/db.db''
   \<and> connect example_env ''/pkg/data/db/db.db'' = None
   \<and> snd (load_json example_env ''english'' example_world)
       = Inr [(''NU_ANO'', ''year''), (''ID_PAIS'', ''country''), (''ID_AGRAVO'', ''disease'')]
   \<and> \<not> matched example_env [''NU_ANO'', ''ID_AGRAVO'', ''NU_IDADE''] (''ID_PAIS'', ''country'')
   \<and> disable example_world < WARNING
   \<and> snd (rename_db_columns example_env ''/pkg/data/db/db.db'' ''sinan'' ''english''
            example_world) = Inr ()
   \<and> disk (fst (rename_db_columns example_env ''/pkg/data/db/db.db'' ''sinan'' ''english''
            example_world)) = [''year'', ''disease'', ''NU_IDADE'']
   \<and> (WARNING, '' - ID_PAIS'')
       \<in> set (records (fst (rename_db_columns example_env ''/pkg/data/db/db.db'' ''sinan''
                              ''english'' example_world)))"
proof -
  let ?db = "''/pkg/data/db/db.db''"
  let ?mapping = "[(''NU_ANO'', ''year''), (''ID_PAIS'', ''country''), (''ID_AGRAVO'', ''disease'')]"
  let ?existing = "[(''NU_ANO'', ''NU_ANO''), (''ID_AGRAVO'', ''ID_AGRAVO''),
                    (''NU_IDADE'', ''NU_IDADE'')]"
  let ?s1 = "fst (load_json example_env ''english'' example_world)"
  let ?run = "rename_db_columns example_env ?db ''sinan'' ''english'' example_world"
  let ?run' = "rename_in_try example_env ?db ''sinan''
                 (filter (matched example_env (map snd ?existing)) ?mapping) ?s1"
  have ex: "path_exists example_env ?db" by code_simp
  have cn: "connect example_env ?db = None" by code_simp
  have lj0: "snd (load_json example_env ''english'' example_world) = Inr ?mapping"
    by code_simp
  then have lj: "load_json example_env ''english'' example_world = (?s1, Inr ?mapping)"
    by (metis prod.collapse)
  have ds: "execute example_env (disk example_world) (''DESCRIBE '' @ ''sinan'')
      = Inr ([''NU_ANO'', ''ID_AGRAVO'', ''NU_IDADE''],
             [[''NU_ANO'', ''VARCHAR''], [''ID_AGRAVO'', ''VARCHAR''], [''NU_IDADE'', ''VARCHAR'']])"
    by code_simp
  have ec: "existing_columns example_env
       [[''NU_ANO'', ''VARCHAR''], [''ID_AGRAVO'', ''VARCHAR''], [''NU_IDADE'', ''VARCHAR'']] []
      = Inr ?existing"
    by code_simp
  have run: "?run = (fst ?run, snd ?run)" by simp
  have run': "?run' = (fst ?run', snd ?run')" by simp
  have nm: "\<not> matched example_env [''NU_ANO'', ''ID_AGRAVO'', ''NU_IDADE''] (''ID_PAIS'', ''country'')"
    by (simp add: matched_def example_env_def example_unidecode_def)
  have dl: "disable example_world < WARNING"
    by (simp add: example_world_def NOTSET_def WARNING_def)
  have ok: "snd ?run = Inr ()" by code_simp
  have dk: "disk (fst ?run) = [''year'', ''disease'', ''NU_IDADE'']" by code_simp
  from rename_db_columns_unmapped [OF ex lj cn ds ec run run'] ok dl nm
  have "(WARNING, '' - '' @ fst (''ID_PAIS'', ''country'')) \<in> set (records (fst ?run))"
    by simp
  with ex cn lj0 nm dl ok dk show ?thesis by simp
qed

end
